theory Spec2Isabelle
  imports Complex_Main "HOL-Library.Sublist"
begin

section \<open>Data model\<close>

text \<open>
  The tables are those of the migration \<^verbatim>\<open>drizzle/0000_nebulous_killer_shrike.sql\<close>.
  A nullable column is an \<open>option\<close>; JavaScript's \<^verbatim>\<open>null\<close> and \<^verbatim>\<open>undefined\<close> of
  an in-memory record are both \<open>None\<close>. A \<^verbatim>\<open>Date\<close> is a number of clock ticks.
  For the users table the values are taken to fit their columns; for the books table
  the reading of the parameters by the store is part of the model.
\<close>

type_synonym timestamp = nat

text \<open>
  \<^verbatim>\<open>Omit<User, 'password'>\<close>: every column of \<^verbatim>\<open>users\<close> but the password hash.
  The primary key \<^verbatim>\<open>id\<close> is called \<open>user_id\<close> here.
\<close>

record PublicUser =
  user_id :: int
  email :: string
  firstName :: "string option"
  lastName :: "string option"
  googleId :: "string option"
  avatar :: "string option"
  isActive :: "bool option"
  createdAt :: "timestamp option"
  updatedAt :: "timestamp option"

text \<open>\<^verbatim>\<open>User\<close>: a row of \<^verbatim>\<open>users\<close>, the public columns and the password hash.\<close>

record User = PublicUser +
  password :: "string option"

text \<open>
  \<^verbatim>\<open>NewUser\<close>, the values of an insert; a column left out (\<open>None\<close>) takes its
  default: \<^verbatim>\<open>NULL\<close>, \<^verbatim>\<open>true\<close> for \<^verbatim>\<open>is_active\<close>, \<^verbatim>\<open>now()\<close> for the two timestamps,
  the next value of the sequence for \<^verbatim>\<open>id\<close>.
\<close>

record NewUser =
  new_email :: string
  new_password :: "string option"
  new_firstName :: "string option"
  new_lastName :: "string option"
  new_googleId :: "string option"
  new_avatar :: "string option"

text \<open>
  The object given to \<^verbatim>\<open>.set(...)\<close> of an update of \<^verbatim>\<open>users\<close>. A key that is
  absent or \<^verbatim>\<open>undefined\<close> (\<open>None\<close>) leaves its column as it is.
\<close>

record UserSet =
  set_email :: "string option"
  set_password :: "string option"
  set_firstName :: "string option"
  set_lastName :: "string option"
  set_googleId :: "string option"
  set_avatar :: "string option"
  set_isActive :: "bool option"
  set_updatedAt :: "timestamp option"

record JwtPayload =
  sub :: int
  payload_email :: string
  payload_firstName :: "string option"
  payload_lastName :: "string option"

record 'tok LoginResponse =
  access_token :: 'tok
  user :: PublicUser

text \<open>
  The profile handed over by the identity provider: \<^verbatim>\<open>emails\<close> and \<^verbatim>\<open>photos\<close> are the
  lists of the \<^verbatim>\<open>value\<close> fields of their entries.
\<close>

record ProfileName =
  givenName :: "string option"
  familyName :: "string option"

record GoogleProfile =
  profile_id :: string
  emails :: "string list"
  name :: ProfileName
  photos :: "string list"

record UpdateUserDto =
  dto_email :: "string option"
  dto_firstName :: "string option"
  dto_lastName :: "string option"
  dto_avatar :: "string option"

record RegisterDto =
  reg_email :: string
  reg_password :: string
  reg_firstName :: "string option"
  reg_lastName :: "string option"

text \<open>A row of \<^verbatim>\<open>books\<close>; drizzle reads a \<^verbatim>\<open>numeric\<close> column as a string.\<close>

record Book =
  book_id :: int
  title :: string
  author :: string
  isbn :: string
  description :: "string option"
  price :: string
  stock :: "int option"
  category :: "string option"
  publishedDate :: "int option"
  coverImage :: "string option"
  book_createdAt :: "timestamp option"
  book_updatedAt :: "timestamp option"

text \<open>The store: the two tables, in some row order, and the last value of each sequence.\<close>

record Db =
  users :: "User list"
  users_seq :: int
  books :: "Book list"
  books_seq :: int

text \<open>
  What a service method can raise. \<open>NotFoundException kind i\<close> stands for the message
  \<^verbatim>\<open>`${kind} with ID ${i} not found`\<close>; \<open>TypeError\<close> is JavaScript's error on reading a
  property of \<^verbatim>\<open>undefined\<close> or calling what is no function, \<open>RangeError\<close> its error on
  \<^verbatim>\<open>toISOString\<close> of an \<^verbatim>\<open>Invalid Date\<close>; \<open>UniqueViolation\<close> is the store refusing a
  duplicate key, \<open>StoreRefused\<close> the store refusing a parameter of a statement.
\<close>

datatype error =
    UnauthorizedException string
  | NotFoundException string int
  | TypeError
  | RangeError
  | UniqueViolation
  | StoreRefused

section \<open>Awaited store calls\<close>

text \<open>
  An \<^verbatim>\<open>async\<close> method is a function from the store to a result and the store after
  it; \<open>bind_io\<close> is \<^verbatim>\<open>await\<close>, \<open>throw\<close> is \<^verbatim>\<open>throw\<close>.
\<close>

type_synonym 'a io = "Db \<Rightarrow> (error + 'a) \<times> Db"

definition return_io :: "'a \<Rightarrow> 'a io" where
  "return_io x db = (Inr x, db)"

definition throw :: "error \<Rightarrow> 'a io" where
  "throw e db = (Inl e, db)"

definition bind_io :: "'a io \<Rightarrow> ('a \<Rightarrow> 'b io) \<Rightarrow> 'b io" where
  "bind_io m f db = (case m db of (Inl e, db') \<Rightarrow> (Inl e, db') | (Inr x, db') \<Rightarrow> f x db')"

subsection \<open>The users table\<close>

definition select_users :: "(User \<Rightarrow> bool) \<Rightarrow> User list io" where
  "select_users P db = (Inr (filter P (users db)), db)"

text \<open>
  \<^verbatim>\<open>insert(users).values(v).returning()\<close>. The sequence advances whether or not the row
  is accepted; the row is refused when its id, its email or its non-null google id is
  already in the table.
\<close>

definition new_row :: "int \<Rightarrow> timestamp \<Rightarrow> NewUser \<Rightarrow> User" where
  "new_row i now v =
     \<lparr>user_id = i, email = new_email v, firstName = new_firstName v,
      lastName = new_lastName v, googleId = new_googleId v, avatar = new_avatar v,
      isActive = Some True, createdAt = Some now, updatedAt = Some now,
      password = new_password v\<rparr>"

definition insert_ok :: "User \<Rightarrow> User list \<Rightarrow> bool" where
  "insert_ok r us =
     (user_id r \<notin> set (map user_id us) \<and> email r \<notin> set (map email us) \<and>
      (googleId r = None \<or> googleId r \<notin> set (map googleId us)))"

definition insert_user :: "timestamp \<Rightarrow> NewUser \<Rightarrow> User io" where
  "insert_user now v db =
     (let i = users_seq db + 1; r = new_row i now v; db1 = db\<lparr>users_seq := i\<rparr>
      in if insert_ok r (users db) then (Inr r, db1\<lparr>users := users db @ [r]\<rparr>)
         else (Inl UniqueViolation, db1))"

definition no_set :: UserSet where
  "no_set = \<lparr>set_email = None, set_password = None, set_firstName = None,
      set_lastName = None, set_googleId = None, set_avatar = None, set_isActive = None,
      set_updatedAt = None\<rparr>"

definition assign :: "'a option \<Rightarrow> 'a option \<Rightarrow> 'a option" where
  "assign new old = (case new of None \<Rightarrow> old | Some v \<Rightarrow> Some v)"

definition apply_set :: "UserSet \<Rightarrow> User \<Rightarrow> User" where
  "apply_set s u =
     u\<lparr>email := (case set_email s of None \<Rightarrow> email u | Some e \<Rightarrow> e),
       firstName := assign (set_firstName s) (firstName u),
       lastName := assign (set_lastName s) (lastName u),
       googleId := assign (set_googleId s) (googleId u),
       avatar := assign (set_avatar s) (avatar u),
       isActive := assign (set_isActive s) (isActive u),
       updatedAt := assign (set_updatedAt s) (updatedAt u),
       password := assign (set_password s) (password u)\<rparr>"

text \<open>
  A unique column keeps its constraint under an update that assigns it the value \<open>v\<close>
  when no row is touched, or one row is and no other row holds \<open>v\<close>.
\<close>

definition unique_after :: "'v option \<Rightarrow> ('r \<Rightarrow> 'v) \<Rightarrow> ('r \<Rightarrow> bool) \<Rightarrow> 'r list \<Rightarrow> bool" where
  "unique_after new col P us =
     (case new of None \<Rightarrow> True
      | Some v \<Rightarrow> filter P us = [] \<or>
          (length (filter P us) = 1 \<and> list_all (\<lambda>u. col u \<noteq> v) (filter (\<lambda>u. \<not> P u) us)))"

text \<open>\<^verbatim>\<open>update(users).set(s).where(P).returning()\<close>: the rows as updated.\<close>

definition update_users :: "(User \<Rightarrow> bool) \<Rightarrow> UserSet \<Rightarrow> User list io" where
  "update_users P s db =
     (if unique_after (set_email s) email P (users db) \<and>
         unique_after (map_option Some (set_googleId s)) googleId P (users db)
      then (Inr (map (apply_set s) (filter P (users db))),
            db\<lparr>users := map (\<lambda>u. if P u then apply_set s u else u) (users db)\<rparr>)
      else (Inl UniqueViolation, db))"

text \<open>\<^verbatim>\<open>delete(users).where(P).returning()\<close>: the rows deleted.\<close>

definition delete_users :: "(User \<Rightarrow> bool) \<Rightarrow> User list io" where
  "delete_users P db = (Inr (filter P (users db)), db\<lparr>users := filter (\<lambda>u. \<not> P u) (users db)\<rparr>)"

text \<open>\<^verbatim>\<open>const [user] = rows; ... user || null\<close>\<close>

definition first_row :: "'a list \<Rightarrow> 'a option" where
  "first_row rows = (case rows of [] \<Rightarrow> None | r # _ \<Rightarrow> Some r)"

section \<open>AuthService\<close>

text \<open>
  The libraries are parameters: \<open>compare\<close> is \<^verbatim>\<open>bcrypt.compare\<close>, \<open>hash\<close> is
  \<^verbatim>\<open>bcrypt.hash\<close> at the cost 10 of the source, with the salt it draws made explicit,
  \<open>sign\<close> is \<^verbatim>\<open>jwtService.sign\<close>. \<open>now\<close> is the clock at the call.
\<close>

text \<open>
  \<^verbatim>\<open>user.password\<close> is truthy when it is neither \<^verbatim>\<open>null\<close> nor the empty string; the
  tests \<^verbatim>\<open>user.password && ...\<close> and \<^verbatim>\<open>!user.password\<close> are written below as the
  case distinction \<open>None\<close>, the empty hash, any other hash.
\<close>

text \<open>\<^verbatim>\<open>const { password: _, ...userWithoutPassword } = user\<close>\<close>

definition omit_password :: "User \<Rightarrow> PublicUser" where
  "omit_password u =
     \<lparr>user_id = user_id u, email = email u, firstName = firstName u,
      lastName = lastName u, googleId = googleId u, avatar = avatar u,
      isActive = isActive u, createdAt = createdAt u, updatedAt = updatedAt u\<rparr>"

definition findUserByEmail :: "string \<Rightarrow> User option io" where
  "findUserByEmail e = bind_io (select_users (\<lambda>u. email u = e)) (\<lambda>rows. return_io (first_row rows))"

definition findUserByGoogleId :: "string \<Rightarrow> User option io" where
  "findUserByGoogleId g =
     bind_io (select_users (\<lambda>u. googleId u = Some g)) (\<lambda>rows. return_io (first_row rows))"

definition findUserById :: "int \<Rightarrow> User option io" where
  "findUserById i = bind_io (select_users (\<lambda>u. user_id u = i)) (\<lambda>rows. return_io (first_row rows))"

definition validateUser :: "(string \<Rightarrow> string \<Rightarrow> bool) \<Rightarrow> string \<Rightarrow> string \<Rightarrow> User option io" where
  "validateUser compare e pw =
     bind_io (findUserByEmail e) (\<lambda>found.
       case found of
         None \<Rightarrow> return_io None
       | Some u \<Rightarrow>
           (case password u of
              None \<Rightarrow> return_io None
            | Some h \<Rightarrow> if h \<noteq> [] \<and> compare pw h then return_io (Some u) else return_io None))"

definition login :: "(JwtPayload \<Rightarrow> 'tok) \<Rightarrow> User \<Rightarrow> 'tok LoginResponse" where
  "login sign u =
     (let payload = \<lparr>sub = user_id u, payload_email = email u,
                     payload_firstName = firstName u, payload_lastName = lastName u\<rparr>
      in \<lparr>access_token = sign payload, user = omit_password u\<rparr>)"

definition register :: "(string \<Rightarrow> string \<Rightarrow> string) \<Rightarrow> (JwtPayload \<Rightarrow> 'tok) \<Rightarrow> string \<Rightarrow> timestamp \<Rightarrow>
    RegisterDto \<Rightarrow> 'tok LoginResponse io" where
  "register hash sign salt now userData =
     bind_io (findUserByEmail (reg_email userData)) (\<lambda>existingUser.
       case existingUser of
         Some _ \<Rightarrow> throw (UnauthorizedException ''User already exists'')
       | None \<Rightarrow>
           (let hashedPassword = hash salt (reg_password userData);
                newUser = \<lparr>new_email = reg_email userData, new_password = Some hashedPassword,
                           new_firstName = reg_firstName userData,
                           new_lastName = reg_lastName userData,
                           new_googleId = None, new_avatar = None\<rparr>
            in bind_io (insert_user now newUser) (\<lambda>createdUser.
                 return_io (login sign createdUser))))"

text \<open>
  \<^verbatim>\<open>emails[0].value\<close> on an empty list reads \<^verbatim>\<open>value\<close> of \<^verbatim>\<open>undefined\<close>: a
  \<open>TypeError\<close>, before any store call. \<^verbatim>\<open>photos[0]?.value\<close> is \<^verbatim>\<open>undefined\<close> on an
  empty list.
\<close>

definition googleLogin :: "(JwtPayload \<Rightarrow> 'tok) \<Rightarrow> timestamp \<Rightarrow> GoogleProfile \<Rightarrow> 'tok LoginResponse io" where
  "googleLogin sign now profile =
     (case emails profile of
        [] \<Rightarrow> throw TypeError
      | e # _ \<Rightarrow>
          bind_io (findUserByGoogleId (profile_id profile)) (\<lambda>byGoogleId.
            case byGoogleId of
              Some u \<Rightarrow> return_io (login sign u)
            | None \<Rightarrow>
                bind_io (findUserByEmail e) (\<lambda>byEmail.
                  case byEmail of
                    Some u \<Rightarrow>
                      bind_io (update_users (\<lambda>r. user_id r = user_id u)
                                 (no_set\<lparr>set_googleId := Some (profile_id profile),
                                         set_avatar := first_row (photos profile)\<rparr>)) (\<lambda>_.
                        return_io (login sign (u\<lparr>googleId := Some (profile_id profile),
                                                 avatar := first_row (photos profile)\<rparr>)))
                  | None \<Rightarrow>
                      bind_io (insert_user now
                                 \<lparr>new_email = e, new_password = None,
                                  new_firstName = givenName (name profile),
                                  new_lastName = familyName (name profile),
                                  new_googleId = Some (profile_id profile),
                                  new_avatar = first_row (photos profile)\<rparr>) (\<lambda>created.
                        return_io (login sign created)))))"

text \<open>
  The row as the link branch of \<open>googleLogin\<close> leaves it in the store (an avatar that is
  \<^verbatim>\<open>undefined\<close> is not written), and the row its create branch inserts.
\<close>

definition link_row :: "string \<Rightarrow> string option \<Rightarrow> User \<Rightarrow> User" where
  "link_row g photo r = r\<lparr>googleId := Some g, avatar := assign photo (avatar r)\<rparr>"

definition google_row :: "int \<Rightarrow> timestamp \<Rightarrow> string \<Rightarrow> GoogleProfile \<Rightarrow> User" where
  "google_row i now e p =
     \<lparr>user_id = i, email = e, firstName = givenName (name p), lastName = familyName (name p),
      googleId = Some (profile_id p), avatar = first_row (photos p), isActive = Some True,
      createdAt = Some now, updatedAt = Some now, password = None\<rparr>"

definition changePassword :: "(string \<Rightarrow> string \<Rightarrow> bool) \<Rightarrow> (string \<Rightarrow> string \<Rightarrow> string) \<Rightarrow> string \<Rightarrow>
    timestamp \<Rightarrow> int \<Rightarrow> string \<Rightarrow> string \<Rightarrow> unit io" where
  "changePassword compare hash salt now userId currentPassword newPassword =
     bind_io (findUserById userId) (\<lambda>found.
       case found of
         None \<Rightarrow> throw (UnauthorizedException ''User not found or no password set'')
       | Some u \<Rightarrow>
           (case password u of
              None \<Rightarrow> throw (UnauthorizedException ''User not found or no password set'')
            | Some h \<Rightarrow>
                if h = [] then throw (UnauthorizedException ''User not found or no password set'')
                else if \<not> compare currentPassword h
                then throw (UnauthorizedException ''Current password is incorrect'')
                else
                  bind_io (update_users (\<lambda>r. user_id r = userId)
                             (no_set\<lparr>set_password := Some (hash salt newPassword),
                                     set_updatedAt := Some now\<rparr>)) (\<lambda>_.
                    return_io ())))"

text \<open>\<^verbatim>\<open>AuthController.getProfile\<close>\<close>

definition getProfile :: "User \<Rightarrow> PublicUser" where
  "getProfile u = omit_password u"

section \<open>UsersService\<close>

definition findAll :: "PublicUser list io" where
  "findAll = bind_io (select_users (\<lambda>_. True)) (\<lambda>allUsers. return_io (map omit_password allUsers))"

definition findOne :: "int \<Rightarrow> PublicUser io" where
  "findOne i =
     bind_io (select_users (\<lambda>u. user_id u = i)) (\<lambda>rows.
       case first_row rows of
         None \<Rightarrow> throw (NotFoundException ''User'' i)
       | Some u \<Rightarrow> return_io (omit_password u))"

definition update :: "timestamp \<Rightarrow> int \<Rightarrow> UpdateUserDto \<Rightarrow> PublicUser io" where
  "update now i updateUserDto =
     bind_io (update_users (\<lambda>u. user_id u = i)
                (no_set\<lparr>set_email := dto_email updateUserDto,
                        set_firstName := dto_firstName updateUserDto,
                        set_lastName := dto_lastName updateUserDto,
                        set_avatar := dto_avatar updateUserDto,
                        set_updatedAt := Some now\<rparr>)) (\<lambda>rows.
       case first_row rows of
         None \<Rightarrow> throw (NotFoundException ''User'' i)
       | Some updatedUser \<Rightarrow> return_io (omit_password updatedUser))"

definition deactivate :: "timestamp \<Rightarrow> int \<Rightarrow> PublicUser io" where
  "deactivate now i =
     bind_io (update_users (\<lambda>u. user_id u = i)
                (no_set\<lparr>set_isActive := Some False, set_updatedAt := Some now\<rparr>)) (\<lambda>rows.
       case first_row rows of
         None \<Rightarrow> throw (NotFoundException ''User'' i)
       | Some deactivatedUser \<Rightarrow> return_io (omit_password deactivatedUser))"

definition activate :: "timestamp \<Rightarrow> int \<Rightarrow> PublicUser io" where
  "activate now i =
     bind_io (update_users (\<lambda>u. user_id u = i)
                (no_set\<lparr>set_isActive := Some True, set_updatedAt := Some now\<rparr>)) (\<lambda>rows.
       case first_row rows of
         None \<Rightarrow> throw (NotFoundException ''User'' i)
       | Some activatedUser \<Rightarrow> return_io (omit_password activatedUser))"

text \<open>The store with every password hash replaced, the hash of row \<open>u\<close> by \<open>f u\<close>.\<close>

definition with_passwords :: "(User \<Rightarrow> string option) \<Rightarrow> Db \<Rightarrow> Db" where
  "with_passwords f db = db\<lparr>users := map (\<lambda>u. u\<lparr>password := f u\<rparr>) (users db)\<rparr>"

section \<open>BooksService\<close>

text \<open>
  The methods that share a name with one of the users service carry the suffix
  \<open>_book\<close>. \<^verbatim>\<open>UpdateBookDto\<close> is not among the sources; it is taken to be
  \<^verbatim>\<open>CreateBookDto\<close> with every field optional. A JavaScript number that passed
  validation is a rational, the value of the decimal numeral that JavaScript prints for
  it; a stock is a whole number. A text is the list of its bytes in UTF-8, and a
  published date is a whole number of milliseconds from the start of 1970, which it may
  precede.
\<close>

text \<open>
  A date string of a request, with the instant that \<^verbatim>\<open>new Date\<close> reads in it: \<open>None\<close>
  when \<^verbatim>\<open>new Date\<close> gives an \<^verbatim>\<open>Invalid Date\<close>.
\<close>

record DateString =
  date_text :: string
  date_instant :: "int option"

record UpdateBookDto =
  ub_title :: "string option"
  ub_author :: "string option"
  ub_isbn :: "string option"
  ub_description :: "string option"
  ub_price :: "rat option"
  ub_stock :: "int option"
  ub_category :: "string option"
  ub_publishedDate :: "DateString option"
  ub_coverImage :: "string option"

text \<open>
  A value handed over for the price: the number itself, or the string that
  \<^verbatim>\<open>Number.prototype.toString\<close> makes of it.
\<close>

datatype price_value = Number rat | NumberString rat

text \<open>
  The object given to \<^verbatim>\<open>.set(...)\<close> of an update of \<^verbatim>\<open>books\<close>. The published date is
  a string (\<open>Inl\<close>) or a \<^verbatim>\<open>Date\<close> (\<open>Inr\<close>, \<open>None\<close> for an \<^verbatim>\<open>Invalid Date\<close>), as the code
  leaves it.
\<close>

record BookSet =
  bset_title :: "string option"
  bset_author :: "string option"
  bset_isbn :: "string option"
  bset_description :: "string option"
  bset_price :: "price_value option"
  bset_stock :: "int option"
  bset_category :: "string option"
  bset_publishedDate :: "(string + int option) option"
  bset_coverImage :: "string option"
  bset_updatedAt :: "timestamp option"

definition no_book_set :: BookSet where
  "no_book_set = \<lparr>bset_title = None, bset_author = None, bset_isbn = None,
      bset_description = None, bset_price = None, bset_stock = None, bset_category = None,
      bset_publishedDate = None, bset_coverImage = None, bset_updatedAt = None\<rparr>"

subsection \<open>What the driver and the store accept\<close>

text \<open>
  The store reads every parameter of a statement into the type of its column before
  it looks at a row, and refuses the statement when a value does not fit:
  an \<^verbatim>\<open>integer\<close> outside 32 bits, a text with the character NUL, a \<^verbatim>\<open>varchar(n)\<close> of
  more than \<open>n\<close> characters unless the characters in excess are spaces (they are then cut
  off), a \<^verbatim>\<open>numeric(10, 2)\<close> that needs more than eight digits before the point after
  rounding to two places, a \<^verbatim>\<open>timestamp\<close> outside the years 1 to 9999.
\<close>

definition int4 :: "int \<Rightarrow> bool" where
  "int4 v = (- 2147483648 \<le> v \<and> v \<le> 2147483647)"

text \<open>A byte that continues a character of UTF-8.\<close>

definition is_cont :: "char \<Rightarrow> bool" where
  "is_cont c = (128 \<le> (of_char c :: nat) \<and> (of_char c :: nat) < 192)"

definition text_ok :: "string \<Rightarrow> bool" where
  "text_ok s = (CHR 0x00 \<notin> set s)"

text \<open>The text without its first \<open>n\<close> characters.\<close>

fun drop_chars :: "nat \<Rightarrow> string \<Rightarrow> string" where
  "drop_chars 0 s = s"
| "drop_chars (Suc n) [] = []"
| "drop_chars (Suc n) (c # s) = drop_chars n (dropWhile is_cont s)"

definition varchar_ok :: "nat \<Rightarrow> string \<Rightarrow> bool" where
  "varchar_ok n s = (text_ok s \<and> list_all (\<lambda>c. c = CHR '' '') (drop_chars n s))"

definition varchar_val :: "nat \<Rightarrow> string \<Rightarrow> string" where
  "varchar_val n s = take (length s - length (drop_chars n s)) s"

definition digit :: "int \<Rightarrow> char" where
  "digit d = char_of (48 + d)"

text \<open>The decimal numeral of \<open>n\<close>, for a number of at most \<open>k\<close> digits.\<close>

primrec digits :: "nat \<Rightarrow> int \<Rightarrow> string" where
  "digits 0 n = []"
| "digits (Suc k) n =
     (if n < 10 then [digit n] else digits k (n div 10) @ [digit (n mod 10)])"

text \<open>Rounding to a whole number, a half away from zero.\<close>

definition round_half_away :: "rat \<Rightarrow> int" where
  "round_half_away r = (if 0 \<le> r then \<lfloor>r + 1 / 2\<rfloor> else - \<lfloor>- r + 1 / 2\<rfloor>)"

text \<open>
  A value as a \<^verbatim>\<open>numeric(10, 2)\<close> column holds it and drizzle reads it back, a string
  with two places after the point; \<open>None\<close> when the store refuses it.
\<close>

definition numeric_10_2 :: "rat \<Rightarrow> string option" where
  "numeric_10_2 r =
     (let c = round_half_away (r * 100); m = \<bar>c\<bar>
      in if 10000000000 \<le> m then None
         else Some ((if c < 0 then ''-'' else []) @ digits 8 (m div 100) @ ''.'' @
                    [digit (m mod 100 div 10), digit (m mod 10)]))"

text \<open>The driver sends a number as the numeral JavaScript prints for it.\<close>

definition numeric_in :: "price_value \<Rightarrow> string option" where
  "numeric_in v = (case v of Number r \<Rightarrow> numeric_10_2 r | NumberString r \<Rightarrow> numeric_10_2 r)"

definition date_ok :: "int \<Rightarrow> bool" where
  "date_ok d = (- 62135596800000 \<le> d \<and> d \<le> 253402300799999)"

definition opt_ok :: "('a \<Rightarrow> bool) \<Rightarrow> 'a option \<Rightarrow> bool" where
  "opt_ok P x = (case x of None \<Rightarrow> True | Some v \<Rightarrow> P v)"

text \<open>
  drizzle turns the value of a \<^verbatim>\<open>timestamp\<close> column into a parameter by calling its
  \<^verbatim>\<open>toISOString\<close>, before anything is sent: on a string that is a \<open>TypeError\<close>, on an
  \<^verbatim>\<open>Invalid Date\<close> a \<open>RangeError\<close>.
\<close>

definition driver_error :: "BookSet \<Rightarrow> error option" where
  "driver_error s =
     (case bset_publishedDate s of
        None \<Rightarrow> None
      | Some (Inl _) \<Rightarrow> Some TypeError
      | Some (Inr None) \<Rightarrow> Some RangeError
      | Some (Inr (Some _)) \<Rightarrow> None)"

definition book_set_ok :: "BookSet \<Rightarrow> bool" where
  "book_set_ok s =
     (opt_ok (varchar_ok 255) (bset_title s) \<and> opt_ok (varchar_ok 255) (bset_author s) \<and>
      opt_ok (varchar_ok 13) (bset_isbn s) \<and> opt_ok text_ok (bset_description s) \<and>
      opt_ok (\<lambda>v. numeric_in v \<noteq> None) (bset_price s) \<and> opt_ok int4 (bset_stock s) \<and>
      opt_ok (varchar_ok 100) (bset_category s) \<and>
      opt_ok (\<lambda>d. case d of Inr (Some t) \<Rightarrow> date_ok t | _ \<Rightarrow> True) (bset_publishedDate s) \<and>
      opt_ok text_ok (bset_coverImage s))"

definition apply_book_set :: "BookSet \<Rightarrow> Book \<Rightarrow> Book" where
  "apply_book_set s b =
     b\<lparr>title := (case bset_title s of None \<Rightarrow> title b | Some v \<Rightarrow> varchar_val 255 v),
       author := (case bset_author s of None \<Rightarrow> author b | Some v \<Rightarrow> varchar_val 255 v),
       isbn := (case bset_isbn s of None \<Rightarrow> isbn b | Some v \<Rightarrow> varchar_val 13 v),
       description := assign (bset_description s) (description b),
       price := (case bset_price s of None \<Rightarrow> price b
                 | Some v \<Rightarrow> (case numeric_in v of None \<Rightarrow> price b | Some t \<Rightarrow> t)),
       stock := assign (bset_stock s) (stock b),
       category := assign (map_option (varchar_val 100) (bset_category s)) (category b),
       publishedDate := (case bset_publishedDate s of Some (Inr (Some t)) \<Rightarrow> Some t
                         | _ \<Rightarrow> publishedDate b),
       coverImage := assign (bset_coverImage s) (coverImage b),
       book_updatedAt := assign (bset_updatedAt s) (book_updatedAt b)\<rparr>"

subsection \<open>The books table\<close>

text \<open>
  In the three calls \<open>ok\<close> says that the store accepts the parameters of the condition,
  \<open>P\<close> is the condition on a row.
\<close>

definition select_books :: "bool \<Rightarrow> (Book \<Rightarrow> bool) \<Rightarrow> Book list io" where
  "select_books ok P db =
     (if ok then (Inr (filter P (books db)), db) else (Inl StoreRefused, db))"

definition update_books :: "bool \<Rightarrow> (Book \<Rightarrow> bool) \<Rightarrow> BookSet \<Rightarrow> Book list io" where
  "update_books ok P s db =
     (case driver_error s of
        Some e \<Rightarrow> (Inl e, db)
      | None \<Rightarrow>
          if \<not> (ok \<and> book_set_ok s) then (Inl StoreRefused, db)
          else if \<not> unique_after (map_option (varchar_val 13) (bset_isbn s)) isbn P (books db)
          then (Inl UniqueViolation, db)
          else (Inr (map (apply_book_set s) (filter P (books db))),
                db\<lparr>books := map (\<lambda>b. if P b then apply_book_set s b else b) (books db)\<rparr>))"

text \<open>Rows of \<^verbatim>\<open>order_items\<close> that refer to a book are outside this model.\<close>

definition delete_books :: "bool \<Rightarrow> (Book \<Rightarrow> bool) \<Rightarrow> Book list io" where
  "delete_books ok P db =
     (if ok then (Inr (filter P (books db)), db\<lparr>books := filter (\<lambda>b. \<not> P b) (books db)\<rparr>)
      else (Inl StoreRefused, db))"

subsection \<open>The methods\<close>

definition findOne_book :: "int \<Rightarrow> Book io" where
  "findOne_book i =
     bind_io (select_books (int4 i) (\<lambda>b. book_id b = i)) (\<lambda>rows.
       case first_row rows of
         None \<Rightarrow> throw (NotFoundException ''Book'' i)
       | Some book \<Rightarrow> return_io book)"

text \<open>The local \<^verbatim>\<open>updateData\<close> of \<^verbatim>\<open>BooksService.update\<close> as it reaches \<^verbatim>\<open>.set\<close>.\<close>

definition updateData :: "timestamp \<Rightarrow> UpdateBookDto \<Rightarrow> BookSet" where
  "updateData now updateBookDto =
     \<lparr>bset_title = ub_title updateBookDto,
      bset_author = ub_author updateBookDto,
      bset_isbn = ub_isbn updateBookDto,
      bset_description = ub_description updateBookDto,
      bset_price =
        (case ub_price updateBookDto of
           None \<Rightarrow> None
         | Some p \<Rightarrow> if p \<noteq> 0 then Some (NumberString p) else Some (Number p)),
      bset_stock = ub_stock updateBookDto,
      bset_category = ub_category updateBookDto,
      bset_publishedDate =
        (case ub_publishedDate updateBookDto of
           None \<Rightarrow> None
         | Some d \<Rightarrow> if date_text d \<noteq> [] then Some (Inr (date_instant d))
                     else Some (Inl (date_text d))),
      bset_coverImage = ub_coverImage updateBookDto,
      bset_updatedAt = Some now\<rparr>"

definition update_book :: "timestamp \<Rightarrow> int \<Rightarrow> UpdateBookDto \<Rightarrow> Book io" where
  "update_book now i updateBookDto =
     bind_io (update_books (int4 i) (\<lambda>b. book_id b = i) (updateData now updateBookDto))
       (\<lambda>rows.
         case first_row rows of
           None \<Rightarrow> throw (NotFoundException ''Book'' i)
         | Some updatedBook \<Rightarrow> return_io updatedBook)"

definition remove_book :: "int \<Rightarrow> unit io" where
  "remove_book i =
     bind_io (delete_books (int4 i) (\<lambda>b. book_id b = i)) (\<lambda>result.
       if length result = 0 then throw (NotFoundException ''Book'' i) else return_io ())"

definition updateStock :: "timestamp \<Rightarrow> int \<Rightarrow> int \<Rightarrow> Book io" where
  "updateStock now i quantity =
     bind_io (update_books (int4 i) (\<lambda>b. book_id b = i)
                (no_book_set\<lparr>bset_stock := Some quantity, bset_updatedAt := Some now\<rparr>)) (\<lambda>rows.
       case first_row rows of
         None \<Rightarrow> throw (NotFoundException ''Book'' i)
       | Some updatedBook \<Rightarrow> return_io updatedBook)"

subsection \<open>ILIKE\<close>

text \<open>
  The store's \<^verbatim>\<open>LIKE\<close>: in the pattern \<^verbatim>\<open>%\<close> stands for any run of characters,
  \<^verbatim>\<open>_\<close> for any one character, and a backslash makes the next character literal.
  A pattern ending in a lone backslash is an error in the store; \<open>search\<close> never builds
  one, and it matches nothing here. \<^verbatim>\<open>ILIKE\<close> is \<^verbatim>\<open>LIKE\<close> on the pattern and the text
  in lower case; \<open>lc\<close> is the store's \<^verbatim>\<open>lower\<close>, which depends on the locale of the
  database and is a parameter.
\<close>

function like :: "string \<Rightarrow> string \<Rightarrow> bool" where
  "like [] t = (t = [])"
| "like (p # ps) t =
     (if p = CHR ''%'' then
        (like ps t \<or> (case t of [] \<Rightarrow> False | _ # t' \<Rightarrow> like (p # ps) (dropWhile is_cont t')))
      else if p = CHR 0x5C then
        (case ps of
           [] \<Rightarrow> False
         | q # qs \<Rightarrow> (case t of [] \<Rightarrow> False | c # t' \<Rightarrow> c = q \<and> like qs t'))
      else if p = CHR ''_'' then
        (case t of [] \<Rightarrow> False | _ # t' \<Rightarrow> like ps (dropWhile is_cont t'))
      else
        (case t of [] \<Rightarrow> False | c # t' \<Rightarrow> c = p \<and> like ps t'))"
  by pat_completeness auto
termination
  by (relation "measure (\<lambda>(p, t). length p + length t)")
    (auto simp: less_Suc_eq_le length_dropWhile_le intro: le_trans [OF length_dropWhile_le])

definition ilike :: "(string \<Rightarrow> string) \<Rightarrow> string \<Rightarrow> string \<Rightarrow> bool" where
  "ilike lc t pat = like (lc pat) (lc t)"

text \<open>A \<^verbatim>\<open>NULL\<close> description matches no pattern.\<close>

definition search :: "(string \<Rightarrow> string) \<Rightarrow> string \<Rightarrow> Book list io" where
  "search lc query =
     select_books (text_ok (''%'' @ query @ ''%'')) (\<lambda>b.
       ilike lc (title b) (''%'' @ query @ ''%'') \<or>
       ilike lc (author b) (''%'' @ query @ ''%'') \<or>
       (case description b of None \<Rightarrow> False | Some d \<Rightarrow> ilike lc d (''%'' @ query @ ''%'')))"

text \<open>The characters that \<^verbatim>\<open>LIKE\<close> does not take literally.\<close>

definition meta :: "char \<Rightarrow> bool" where
  "meta c = (c = CHR ''%'' \<or> c = CHR ''_'' \<or> c = CHR 0x5C)"

text \<open>
  The spec's reading of \<open>search\<close>: the query occurs in the text as a contiguous run of
  characters, once both are in lower case.
\<close>

definition contains_ci :: "(string \<Rightarrow> string) \<Rightarrow> string \<Rightarrow> string \<Rightarrow> bool" where
  "contains_ci lc q s = sublist (lc q) (lc s)"

section \<open>Constraints of the schema\<close>

text \<open>The constraints of the schema on the users table, and every id behind the sequence.\<close>

definition wf_users :: "Db \<Rightarrow> bool" where
  "wf_users db =
     (distinct (map user_id (users db)) \<and> distinct (map email (users db)) \<and>
      distinct (filter (\<lambda>g. g \<noteq> None) (map googleId (users db))) \<and>
      list_all (\<lambda>u. user_id u \<le> users_seq db) (users db))"

section \<open>Sample values\<close>

text \<open>
  A hasher and a token issuer that meet the contracts assumed of the libraries, and a
  small store, for evaluating the theorems below at concrete inputs. The sample hash is
  a four-character salt followed by the plaintext; the sample token is the payload.
\<close>

definition demo_hash :: "string \<Rightarrow> string \<Rightarrow> string" where
  "demo_hash salt pw = take 4 (salt @ ''0000'') @ pw"

definition demo_compare :: "string \<Rightarrow> string \<Rightarrow> bool" where
  "demo_compare pw h = (4 \<le> length h \<and> drop 4 h = pw)"

definition demo_sign :: "JwtPayload \<Rightarrow> JwtPayload" where
  "demo_sign p = p"

definition demo_decode :: "JwtPayload \<Rightarrow> JwtPayload option" where
  "demo_decode t = Some t"

definition alice :: User where
  "alice = \<lparr>user_id = 1, email = ''a@b.com'', firstName = Some ''Alice'', lastName = None,
     googleId = None, avatar = None, isActive = Some True, createdAt = Some 5,
     updatedAt = Some 5, password = Some ''saltsecret1''\<rparr>"

definition bob :: User where
  "bob = \<lparr>user_id = 2, email = ''bob@b.com'', firstName = None, lastName = None,
     googleId = Some ''g-2'', avatar = None, isActive = Some True, createdAt = Some 6,
     updatedAt = Some 6, password = None\<rparr>"

definition emma :: Book where
  "emma = \<lparr>book_id = 1, title = ''Emma'', author = ''Jane Austen'', isbn = ''9780141439587'',
     description = None, price = ''7.99'', stock = Some 3, category = None,
     publishedDate = None, coverImage = None, book_createdAt = Some 1,
     book_updatedAt = Some 1\<rparr>"

definition demo_db :: Db where
  "demo_db = \<lparr>users = [alice, bob], users_seq = 2, books = [emma], books_seq = 1\<rparr>"

text \<open>
  A sample of the store's \<^verbatim>\<open>lower\<close>: it folds the letters A to Z of ASCII and the
  capital letters of Latin-1 (in UTF-8 the bytes C3 80 to C3 9E, the multiplication
  sign C3 97 apart) and leaves every other character as it is.
\<close>

definition lower_ascii :: "char \<Rightarrow> char" where
  "lower_ascii c =
     (let n = (of_char c :: nat) in if 65 \<le> n \<and> n \<le> 90 then char_of (n + 32) else c)"

fun demo_fold :: "string \<Rightarrow> string" where
  "demo_fold [] = []"
| "demo_fold [c] = [lower_ascii c]"
| "demo_fold (c # d # s) =
     (if c = CHR 0xC3 \<and> 128 \<le> (of_char d :: nat) \<and> (of_char d :: nat) \<le> 158 \<and> d \<noteq> CHR 0x97
      then c # char_of ((of_char d :: nat) + 32) # demo_fold s
      else lower_ascii c # demo_fold (d # s))"

text \<open>A book whose title starts with a capital E with an acute accent, the bytes C3 89.\<close>

definition ecole :: Book where
  "ecole = \<lparr>book_id = 2, title = CHR 0xC3 # CHR 0x89 # ''cole'', author = ''Anonyme'',
     isbn = ''9782070360024'', description = None, price = ''5.00'', stock = Some 1,
     category = None, publishedDate = None, coverImage = None, book_createdAt = Some 2,
     book_updatedAt = Some 2\<rparr>"

definition school_db :: Db where
  "school_db = \<lparr>users = [], users_seq = 0, books = [emma, ecole], books_seq = 2\<rparr>"

text \<open>The sample book after an update of its price to 0 and to 2 at the clock 7.\<close>

definition zero_emma :: Book where
  "zero_emma = emma\<lparr>price := ''0.00'', book_updatedAt := Some 7\<rparr>"

definition two_emma :: Book where
  "two_emma = emma\<lparr>price := ''2.00'', book_updatedAt := Some 7\<rparr>"

definition price_update :: "rat \<Rightarrow> UpdateBookDto" where
  "price_update p = \<lparr>ub_title = None, ub_author = None, ub_isbn = None, ub_description = None,
     ub_price = Some p, ub_stock = None, ub_category = None, ub_publishedDate = None,
     ub_coverImage = None\<rparr>"

definition rename_alice :: UpdateUserDto where
  "rename_alice = \<lparr>dto_email = None, dto_firstName = Some ''Al'', dto_lastName = None,
     dto_avatar = None\<rparr>"

definition carol_reg :: RegisterDto where
  "carol_reg = \<lparr>reg_email = ''c@b.com'', reg_password = ''secret3'',
     reg_firstName = Some ''Carol'', reg_lastName = None\<rparr>"

definition alice_reg :: RegisterDto where
  "alice_reg = \<lparr>reg_email = ''a@b.com'', reg_password = ''other'',
     reg_firstName = None, reg_lastName = None\<rparr>"

definition carol :: User where
  "carol = \<lparr>user_id = 3, email = ''c@b.com'', firstName = Some ''Carol'', lastName = None,
     googleId = None, avatar = None, isActive = Some True, createdAt = Some 9,
     updatedAt = Some 9, password = Some ''saltsecret3''\<rparr>"

definition bob_profile :: GoogleProfile where
  "bob_profile = \<lparr>profile_id = ''g-2'', emails = [''bob@b.com''],
     name = \<lparr>givenName = Some ''Bob'', familyName = None\<rparr>, photos = []\<rparr>"

definition alice_profile :: GoogleProfile where
  "alice_profile = \<lparr>profile_id = ''g-1'', emails = [''a@b.com''],
     name = \<lparr>givenName = Some ''Alice'', familyName = None\<rparr>, photos = [''pic'']\<rparr>"

definition carol_profile :: GoogleProfile where
  "carol_profile = \<lparr>profile_id = ''g-3'', emails = [''c@b.com''],
     name = \<lparr>givenName = Some ''Carol'', familyName = None\<rparr>, photos = []\<rparr>"

definition no_email_profile :: GoogleProfile where
  "no_email_profile = \<lparr>profile_id = ''g-9'', emails = [],
     name = \<lparr>givenName = Some ''Carol'', familyName = None\<rparr>, photos = []\<rparr>"

section \<open>Unfolding the store calls\<close>

lemmas io_defs = return_io_def throw_def bind_io_def select_users_def first_row_def

section \<open>AuthService: credentials\<close>

text \<open>
  C2. \<open>validateUser\<close> (the spec's validateCredentials) gives the one negative result
  \<open>None\<close> when no user has the email, when the user found has no password hash, and
  when the plaintext does not verify against the hash; otherwise it gives the whole row
  found. It leaves the store as it was, and running it again gives the same result.
  The hasher is assumed never to verify a plaintext against the empty hash.
\<close>

theorem validateUser_contract:
  assumes "\<And>p. \<not> compare p []"
  shows "(fst (findUserByEmail e db) = Inr None \<longrightarrow>
            validateUser compare e pw db = (Inr None, db)) \<and>
         (\<forall>u. fst (findUserByEmail e db) = Inr (Some u) \<longrightarrow>
            (password u = None \<longrightarrow> validateUser compare e pw db = (Inr None, db)) \<and>
            (\<forall>h. password u = Some h \<longrightarrow>
               (\<not> compare pw h \<longrightarrow> validateUser compare e pw db = (Inr None, db)) \<and>
               (compare pw h \<longrightarrow> validateUser compare e pw db = (Inr (Some u), db)))) \<and>
         snd (validateUser compare e pw db) = db \<and>
         validateUser compare e pw (snd (validateUser compare e pw db)) =
           validateUser compare e pw db"
  using assms
  by (auto simp: validateUser_def findUserByEmail_def io_defs split: list.splits option.splits)

theorem validateUser_contract_witness:
  "validateUser demo_compare ''a@b.com'' ''secret1'' demo_db = (Inr (Some alice), demo_db) \<and>
   validateUser demo_compare ''a@b.com'' ''wrong'' demo_db = (Inr None, demo_db) \<and>
   validateUser demo_compare ''bob@b.com'' ''secret1'' demo_db = (Inr None, demo_db) \<and>
   validateUser demo_compare ''c@b.com'' ''secret1'' demo_db = (Inr None, demo_db)"
proof -
  have c: "\<And>p. \<not> demo_compare p []" by (simp add: demo_compare_def)
  have a: "fst (findUserByEmail ''a@b.com'' demo_db) = Inr (Some alice)"
    by (simp add: findUserByEmail_def io_defs demo_db_def alice_def bob_def)
  have b: "fst (findUserByEmail ''bob@b.com'' demo_db) = Inr (Some bob)"
    by (simp add: findUserByEmail_def io_defs demo_db_def alice_def bob_def)
  have n: "fst (findUserByEmail ''c@b.com'' demo_db) = Inr None"
    by (simp add: findUserByEmail_def io_defs demo_db_def alice_def bob_def)
  have pa: "password alice = Some ''saltsecret1''" by (simp add: alice_def)
  have pb: "password bob = None" by (simp add: bob_def)
  have ok: "demo_compare ''secret1'' ''saltsecret1''" by (simp add: demo_compare_def)
  have ko: "\<not> demo_compare ''wrong'' ''saltsecret1''" by (simp add: demo_compare_def)
  show ?thesis
    using validateUser_contract [where compare = demo_compare and e = "''a@b.com''" and db = demo_db and pw = "''secret1''"]
      validateUser_contract [where compare = demo_compare and e = "''a@b.com''" and db = demo_db and pw = "''wrong''"]
      validateUser_contract [where compare = demo_compare and e = "''bob@b.com''" and db = demo_db and pw = "''secret1''"]
      validateUser_contract [where compare = demo_compare and e = "''c@b.com''" and db = demo_db and pw = "''secret1''"] c
      a b n pa pb ok ko
    by simp
qed

section \<open>AuthService: tokens and profiles\<close>

text \<open>
  C5. The token of \<open>login\<close> decodes to a payload whose subject is the id of the user, for
  a token issuer whose tokens decode to the payload signed. The user object returned is
  the projection \<open>omit_password\<close>, of a type that has no password field, and the whole
  result is the same whatever the password hash of the input is. \<open>getProfile\<close> takes
  no store: it returns the record given, every field but the password hash, and does
  not depend on the hash either.
\<close>

theorem login_getProfile_projection:
  assumes "\<And>p. decode (sign p) = Some p"
  shows "map_option sub (decode (access_token (login sign u))) = Some (user_id u) \<and>
         user (login sign u) = omit_password u \<and>
         login sign (u\<lparr>password := h\<rparr>) = login sign u \<and>
         getProfile (u\<lparr>password := h\<rparr>) = getProfile u \<and>
         user_id (getProfile u) = user_id u \<and> email (getProfile u) = email u \<and>
         firstName (getProfile u) = firstName u \<and> lastName (getProfile u) = lastName u \<and>
         googleId (getProfile u) = googleId u \<and> avatar (getProfile u) = avatar u \<and>
         isActive (getProfile u) = isActive u \<and> createdAt (getProfile u) = createdAt u \<and>
         updatedAt (getProfile u) = updatedAt u"
  using assms by (simp add: login_def getProfile_def omit_password_def)

theorem login_getProfile_projection_witness:
  "map_option sub (demo_decode (access_token (login demo_sign alice))) = Some 1 \<and>
   user (login demo_sign alice) = omit_password alice \<and>
   login demo_sign (alice\<lparr>password := None\<rparr>) = login demo_sign alice \<and>
   email (getProfile alice) = ''a@b.com''"
proof -
  have r: "\<And>p. demo_decode (demo_sign p) = Some p"
    by (simp add: demo_decode_def demo_sign_def)
  show ?thesis
    using login_getProfile_projection [where decode = demo_decode and sign = demo_sign
        and u = alice and h = None] r
    by (simp add: alice_def)
qed

section \<open>AuthService: a profile without emails\<close>

text \<open>
  C6. On a profile with an empty list of emails \<open>googleLogin\<close> stops with JavaScript's
  \<open>TypeError\<close>, raised by reading \<^verbatim>\<open>value\<close> of the missing first entry, and not with
  an error that names the input; the store is not touched.
\<close>

theorem googleLogin_zero_emails:
  "googleLogin demo_sign 7 no_email_profile demo_db = (Inl TypeError, demo_db)"
  by (simp add: googleLogin_def no_email_profile_def throw_def)

section \<open>Missing records\<close>

lemma filter_absent: "i \<notin> f ` set xs \<Longrightarrow> filter (\<lambda>x. f x = i) xs = []"
  by (induction xs) auto

lemma filter_not_absent: "i \<notin> f ` set xs \<Longrightarrow> filter (\<lambda>x. f x \<noteq> i) xs = xs"
  by (induction xs) auto

lemma map_if_absent: "i \<notin> f ` set xs \<Longrightarrow> map (\<lambda>x. if f x = i then g x else x) xs = xs"
  by (induction xs) auto

text \<open>
  C7, as amended. For an id in the range of the 32-bit \<^verbatim>\<open>id\<close> column that no book has,
  \<open>findOne\<close> and \<open>remove\<close> of the books service raise \<open>NotFoundException\<close> and leave the
  store as it was; so does \<open>updateStock\<close> for a quantity in that range, and \<open>update\<close>
  for a request whose values the driver and the store accept. The three lookups of the
  auth service, asked for an email or a google id without the character NUL or for an
  id in the 32-bit range, return \<open>None\<close> when no row has it, and they do not raise.
\<close>

theorem missing_record_results:
  "(i \<notin> book_id ` set (books db) \<and> int4 i \<longrightarrow>
      findOne_book i db = (Inl (NotFoundException ''Book'' i), db) \<and>
      remove_book i db = (Inl (NotFoundException ''Book'' i), db) \<and>
      (int4 q \<longrightarrow> updateStock now i q db = (Inl (NotFoundException ''Book'' i), db)) \<and>
      (driver_error (updateData now dto) = None \<and> book_set_ok (updateData now dto) \<longrightarrow>
         update_book now i dto db = (Inl (NotFoundException ''Book'' i), db))) \<and>
   (text_ok e \<longrightarrow>
      (e \<notin> email ` set (users db) \<longrightarrow> findUserByEmail e db = (Inr None, db)) \<and>
      (\<forall>x. fst (findUserByEmail e db) \<noteq> Inl x)) \<and>
   (text_ok g \<longrightarrow>
      (Some g \<notin> googleId ` set (users db) \<longrightarrow> findUserByGoogleId g db = (Inr None, db)) \<and>
      (\<forall>x. fst (findUserByGoogleId g db) \<noteq> Inl x)) \<and>
   (int4 j \<longrightarrow>
      (j \<notin> user_id ` set (users db) \<longrightarrow> findUserById j db = (Inr None, db)) \<and>
      (\<forall>x. fst (findUserById j db) \<noteq> Inl x))"
proof -
  have books: "findOne_book i db = (Inl (NotFoundException ''Book'' i), db) \<and>
      remove_book i db = (Inl (NotFoundException ''Book'' i), db) \<and>
      (int4 q \<longrightarrow> updateStock now i q db = (Inl (NotFoundException ''Book'' i), db)) \<and>
      (driver_error (updateData now dto) = None \<and> book_set_ok (updateData now dto) \<longrightarrow>
         update_book now i dto db = (Inl (NotFoundException ''Book'' i), db))"
    if a: "i \<notin> book_id ` set (books db)" and r: "int4 i"
  proof -
    note f = filter_absent [OF a] filter_not_absent [OF a] map_if_absent [OF a]
    have one: "findOne_book i db = (Inl (NotFoundException ''Book'' i), db)"
      using r by (simp add: findOne_book_def select_books_def bind_io_def throw_def
          first_row_def f)
    have two: "remove_book i db = (Inl (NotFoundException ''Book'' i), db)"
      using r by (simp add: remove_book_def delete_books_def bind_io_def throw_def f)
    have s: "driver_error (no_book_set\<lparr>bset_stock := Some q, bset_updatedAt := Some now\<rparr>) = None"
      by (simp add: driver_error_def no_book_set_def)
    have k: "book_set_ok (no_book_set\<lparr>bset_stock := Some q, bset_updatedAt := Some now\<rparr>)"
      if "int4 q"
      using that by (simp add: book_set_ok_def no_book_set_def opt_ok_def)
    have n: "bset_isbn (no_book_set\<lparr>bset_stock := Some q, bset_updatedAt := Some now\<rparr>) = None"
      by (simp add: no_book_set_def)
    have three: "updateStock now i q db = (Inl (NotFoundException ''Book'' i), db)" if "int4 q"
      using r k [OF that]
      by (simp add: updateStock_def update_books_def s n bind_io_def throw_def first_row_def
          unique_after_def f)
    have four: "update_book now i dto db = (Inl (NotFoundException ''Book'' i), db)"
      if "driver_error (updateData now dto) = None" "book_set_ok (updateData now dto)"
      using r that
      by (simp add: update_book_def update_books_def bind_io_def throw_def first_row_def
          unique_after_def f split: option.splits)
    from one two three four show ?thesis by blast
  qed
  have byEmail: "findUserByEmail e db = (Inr None, db)" if "e \<notin> email ` set (users db)"
    using filter_absent [OF that] by (simp add: findUserByEmail_def io_defs)
  have byGoogle: "findUserByGoogleId g db = (Inr None, db)"
    if "Some g \<notin> googleId ` set (users db)"
    using filter_absent [OF that] by (simp add: findUserByGoogleId_def io_defs)
  have byId: "findUserById j db = (Inr None, db)" if "j \<notin> user_id ` set (users db)"
    using filter_absent [OF that] by (simp add: findUserById_def io_defs)
  have "\<forall>x. fst (findUserByEmail e db) \<noteq> Inl x" "\<forall>x. fst (findUserByGoogleId g db) \<noteq> Inl x"
    "\<forall>x. fst (findUserById j db) \<noteq> Inl x"
    by (simp_all add: findUserByEmail_def findUserByGoogleId_def findUserById_def io_defs)
  with books byEmail byGoogle byId show ?thesis by blast
qed

lemma numeric_samples:
  "numeric_in (Number 0) = Some ''0.00''" "numeric_in (NumberString 2) = Some ''2.00''"
  by code_simp+

theorem missing_record_results_witness:
  "findOne_book 9 demo_db = (Inl (NotFoundException ''Book'' 9), demo_db) \<and>
   update_book 7 9 (price_update 2) demo_db = (Inl (NotFoundException ''Book'' 9), demo_db) \<and>
   remove_book 9 demo_db = (Inl (NotFoundException ''Book'' 9), demo_db) \<and>
   updateStock 7 9 4 demo_db = (Inl (NotFoundException ''Book'' 9), demo_db) \<and>
   findUserByEmail ''c@b.com'' demo_db = (Inr None, demo_db) \<and>
   findUserByGoogleId ''g-9'' demo_db = (Inr None, demo_db) \<and>
   findUserById 9 demo_db = (Inr None, demo_db)"
proof -
  have d: "driver_error (updateData 7 (price_update 2)) = None"
    by (simp add: driver_error_def updateData_def price_update_def)
  have k: "book_set_ok (updateData 7 (price_update 2))"
    by (simp add: book_set_ok_def updateData_def price_update_def opt_ok_def numeric_samples)
  have r: "int4 9" "int4 4" by (simp_all add: int4_def)
  have t: "text_ok ''c@b.com''" "text_ok ''g-9''" by (simp_all add: text_ok_def)
  show ?thesis
    using missing_record_results [where i = 9 and db = demo_db and e = "''c@b.com''"
        and g = "''g-9''" and j = 9 and now = 7 and dto = "price_update 2" and q = 4]
      d k r t
    by (simp add: demo_db_def alice_def bob_def emma_def)
qed

text \<open>
  C7 as stated fails for an id outside 32 bits: no book has the id 2147483648, and the
  store refuses the statement, so that \<open>findOne\<close> does not raise \<open>NotFoundException\<close>.
\<close>

theorem findOne_wide_id_counterexample:
  "books demo_db = [emma] \<and> book_id emma \<noteq> 2147483648 \<and>
   findOne_book 2147483648 demo_db = (Inl StoreRefused, demo_db)"
  by (simp add: findOne_book_def select_books_def bind_io_def int4_def demo_db_def emma_def)

section \<open>UsersService: the password hash stays inside\<close>

lemma filter_map_same: "(\<And>x. P (g x) = P x) \<Longrightarrow> filter P (map g xs) = map g (filter P xs)"
  by (induction xs) auto

lemma first_row_map: "first_row (map g xs) = map_option g (first_row xs)"
  by (cases xs) (auto simp: first_row_def)

lemma unique_after_map:
  assumes "\<And>x. P (g x) = P x" "\<And>x. col (g x) = col x"
  shows "unique_after new col P (map g xs) = unique_after new col P xs"
proof -
  have a: "filter P (map g xs) = map g (filter P xs)"
    using assms(1) by (rule filter_map_same)
  have b: "filter (\<lambda>u. \<not> P u) (map g xs) = map g (filter (\<lambda>u. \<not> P u) xs)"
    using assms(1) by (intro filter_map_same) simp
  show ?thesis
    by (simp add: unique_after_def a b list_all_iff assms(2) split: option.splits)
qed

lemma omit_password_apply_set:
  "omit_password (apply_set s (u\<lparr>password := x\<rparr>)) = omit_password (apply_set s u)"
  by (cases "set_email s") (simp_all add: omit_password_def apply_set_def)

lemma returning_with_passwords:
  "map_sum id (\<lambda>rows. map_option omit_password (first_row rows))
     (fst (update_users (\<lambda>u. user_id u = i) s (with_passwords f db))) =
   map_sum id (\<lambda>rows. map_option omit_password (first_row rows))
     (fst (update_users (\<lambda>u. user_id u = i) s db))"
proof -
  let ?g = "\<lambda>u. u\<lparr>password := f u\<rparr>" and ?P = "\<lambda>u. user_id u = i"
  have e: "unique_after (set_email s) email ?P (map ?g (users db)) =
      unique_after (set_email s) email ?P (users db)"
    by (rule unique_after_map) simp_all
  have g: "unique_after (map_option Some (set_googleId s)) googleId ?P (map ?g (users db)) =
      unique_after (map_option Some (set_googleId s)) googleId ?P (users db)"
    by (rule unique_after_map) simp_all
  have fl: "filter ?P (map ?g (users db)) = map ?g (filter ?P (users db))"
    by (rule filter_map_same) simp
  show ?thesis
    by (cases "filter ?P (users db)")
      (simp_all add: update_users_def with_passwords_def e g fl first_row_def
        omit_password_apply_set)
qed

lemma update_shape:
  "fst (bind_io (update_users P s) (\<lambda>rows. case first_row rows of
         None \<Rightarrow> throw (NotFoundException ''User'' i)
       | Some r \<Rightarrow> return_io (omit_password r)) db) =
   (case fst (update_users P s db) of Inl e \<Rightarrow> Inl e
    | Inr rows \<Rightarrow> (case first_row rows of None \<Rightarrow> Inl (NotFoundException ''User'' i)
                   | Some r \<Rightarrow> Inr (omit_password r)))"
  by (simp add: bind_io_def throw_def return_io_def update_users_def split: option.splits)

lemma shape_factor:
  "(case r of Inl e \<Rightarrow> Inl e
    | Inr rows \<Rightarrow> (case first_row rows of None \<Rightarrow> Inl n | Some r \<Rightarrow> Inr (omit_password r))) =
   (case map_sum id (\<lambda>rows. map_option omit_password (first_row rows)) r of
      Inl e \<Rightarrow> Inl e | Inr None \<Rightarrow> Inl n | Inr (Some p) \<Rightarrow> Inr p)"
  by (cases r) (auto split: option.splits)

lemma update_shape_with_passwords:
  "fst (bind_io (update_users (\<lambda>u. user_id u = i) s) (\<lambda>rows. case first_row rows of
         None \<Rightarrow> throw (NotFoundException ''User'' i)
       | Some r \<Rightarrow> return_io (omit_password r)) (with_passwords f db)) =
   fst (bind_io (update_users (\<lambda>u. user_id u = i) s) (\<lambda>rows. case first_row rows of
         None \<Rightarrow> throw (NotFoundException ''User'' i)
       | Some r \<Rightarrow> return_io (omit_password r)) db)"
  unfolding update_shape shape_factor returning_with_passwords ..

lemma findAll_with_passwords: "fst (findAll (with_passwords f db)) = fst (findAll db)"
  by (simp add: findAll_def io_defs with_passwords_def omit_password_def)

lemma findOne_with_passwords: "fst (findOne i (with_passwords f db)) = fst (findOne i db)"
proof -
  have fl: "filter (\<lambda>u. user_id u = i) (map (\<lambda>u. u\<lparr>password := f u\<rparr>) (users db)) =
      map (\<lambda>u. u\<lparr>password := f u\<rparr>) (filter (\<lambda>u. user_id u = i) (users db))"
    by (rule filter_map_same) simp
  show ?thesis
    by (cases "filter (\<lambda>u. user_id u = i) (users db)")
      (simp_all add: findOne_def bind_io_def select_users_def with_passwords_def fl
        first_row_def throw_def return_io_def omit_password_def)
qed



lemma update_result_stored:
  assumes "fst (bind_io (update_users (\<lambda>u. user_id u = i) s) (\<lambda>rows. case first_row rows of
         None \<Rightarrow> throw (NotFoundException ''User'' i)
       | Some r \<Rightarrow> return_io (omit_password r)) db) = Inr r"
  shows "\<exists>u \<in> set (users (snd (bind_io (update_users (\<lambda>u. user_id u = i) s)
       (\<lambda>rows. case first_row rows of
         None \<Rightarrow> throw (NotFoundException ''User'' i)
       | Some r \<Rightarrow> return_io (omit_password r)) db))). user_id u = i \<and> r = omit_password u"
proof (cases "filter (\<lambda>u. user_id u = i) (users db)")
  case Nil
  with assms show ?thesis
    by (simp add: bind_io_def update_users_def first_row_def throw_def split: if_splits)
next
  case (Cons u us)
  then have "u \<in> set (filter (\<lambda>u. user_id u = i) (users db))" by simp
  then have u: "u \<in> set (users db)" "user_id u = i" by simp_all
  have k: "user_id (apply_set s u) = i" using u(2) by (simp add: apply_set_def)
  have m: "apply_set s u \<in> set (map (\<lambda>u. if user_id u = i then apply_set s u else u) (users db))"
    using u by force
  show ?thesis
    using assms Cons k m
    by (auto simp: bind_io_def update_users_def first_row_def return_io_def
        split: if_splits)
qed

text \<open>
  C8. What the users service returns is a projection by \<open>omit_password\<close>, whose type
  has no password field: \<open>findAll\<close> returns the projection of every row, \<open>findOne\<close>
  that of the row found, \<open>update\<close>, \<open>deactivate\<close> and \<open>activate\<close> that of a row of the
  store as updated. No returned value, error or record, depends on the password hashes
  stored: replacing every hash in the store leaves all five results as they were.
\<close>

theorem users_service_results:
  "fst (findAll db) = Inr (map omit_password (users db)) \<and>
   (\<forall>u. first_row (filter (\<lambda>u. user_id u = i) (users db)) = Some u \<longrightarrow>
      fst (findOne i db) = Inr (omit_password u)) \<and>
   (\<forall>r. fst (update now i dto db) = Inr r \<longrightarrow>
      (\<exists>u \<in> set (users (snd (update now i dto db))). user_id u = i \<and> r = omit_password u)) \<and>
   (\<forall>r. fst (deactivate now i db) = Inr r \<longrightarrow>
      (\<exists>u \<in> set (users (snd (deactivate now i db))). user_id u = i \<and> r = omit_password u)) \<and>
   (\<forall>r. fst (activate now i db) = Inr r \<longrightarrow>
      (\<exists>u \<in> set (users (snd (activate now i db))). user_id u = i \<and> r = omit_password u)) \<and>
   fst (findAll (with_passwords f db)) = fst (findAll db) \<and>
   fst (findOne i (with_passwords f db)) = fst (findOne i db) \<and>
   fst (update now i dto (with_passwords f db)) = fst (update now i dto db) \<and>
   fst (deactivate now i (with_passwords f db)) = fst (deactivate now i db) \<and>
   fst (activate now i (with_passwords f db)) = fst (activate now i db)"
proof -
  have a: "fst (findAll db) = Inr (map omit_password (users db))"
    by (simp add: findAll_def io_defs)
  have b: "\<forall>u. first_row (filter (\<lambda>u. user_id u = i) (users db)) = Some u \<longrightarrow>
      fst (findOne i db) = Inr (omit_password u)"
    by (simp add: findOne_def bind_io_def select_users_def return_io_def)
  have c: "\<forall>r. fst (update now i dto db) = Inr r \<longrightarrow>
      (\<exists>u \<in> set (users (snd (update now i dto db))). user_id u = i \<and> r = omit_password u)"
    unfolding update_def by (blast dest: update_result_stored)
  have d: "\<forall>r. fst (deactivate now i db) = Inr r \<longrightarrow>
      (\<exists>u \<in> set (users (snd (deactivate now i db))). user_id u = i \<and> r = omit_password u)"
    unfolding deactivate_def by (blast dest: update_result_stored)
  have e: "\<forall>r. fst (activate now i db) = Inr r \<longrightarrow>
      (\<exists>u \<in> set (users (snd (activate now i db))). user_id u = i \<and> r = omit_password u)"
    unfolding activate_def by (blast dest: update_result_stored)
  show ?thesis
    using a b c d e
    by (simp add: findAll_with_passwords findOne_with_passwords update_def deactivate_def
      activate_def update_shape_with_passwords)
qed

theorem users_service_results_witness:
  "fst (findAll demo_db) = Inr [omit_password alice, omit_password bob] \<and>
   fst (findOne 1 demo_db) = Inr (omit_password alice) \<and>
   fst (update 9 1 rename_alice demo_db) =
     Inr (omit_password (alice\<lparr>firstName := Some ''Al'', updatedAt := Some 9\<rparr>)) \<and>
   fst (deactivate 9 1 demo_db) =
     Inr (omit_password (alice\<lparr>isActive := Some False, updatedAt := Some 9\<rparr>)) \<and>
   fst (activate 9 2 demo_db) = Inr (omit_password (bob\<lparr>updatedAt := Some 9\<rparr>)) \<and>
   fst (findAll (with_passwords (\<lambda>_. Some ''x'') demo_db)) = fst (findAll demo_db)"
proof -
  have u: "fst (update 9 1 rename_alice demo_db) =
     Inr (omit_password (alice\<lparr>firstName := Some ''Al'', updatedAt := Some 9\<rparr>))"
    by (simp add: update_def bind_io_def update_users_def unique_after_def no_set_def
        rename_alice_def demo_db_def alice_def bob_def first_row_def return_io_def
        apply_set_def assign_def omit_password_def)
  have d: "fst (deactivate 9 1 demo_db) =
     Inr (omit_password (alice\<lparr>isActive := Some False, updatedAt := Some 9\<rparr>))"
    by (simp add: deactivate_def bind_io_def update_users_def unique_after_def no_set_def
        demo_db_def alice_def bob_def first_row_def return_io_def
        apply_set_def assign_def omit_password_def)
  have a: "fst (activate 9 2 demo_db) = Inr (omit_password (bob\<lparr>updatedAt := Some 9\<rparr>))"
    by (simp add: activate_def bind_io_def update_users_def unique_after_def no_set_def
        demo_db_def alice_def bob_def first_row_def return_io_def
        apply_set_def assign_def omit_password_def)
  have f: "first_row (filter (\<lambda>u. user_id u = 1) (users demo_db)) = Some alice"
    by (simp add: demo_db_def alice_def bob_def first_row_def)
  show ?thesis
    using users_service_results [where db = demo_db and i = 1 and now = 9
        and dto = rename_alice and f = "\<lambda>_. Some ''x''"] f u d a
    by (simp add: demo_db_def)
qed

section \<open>BooksService: the price of an update\<close>

lemma update_book_result:
  "update_book now i dto db =
     (case driver_error (updateData now dto) of
        Some e \<Rightarrow> (Inl e, db)
      | None \<Rightarrow>
          if \<not> (int4 i \<and> book_set_ok (updateData now dto)) then (Inl StoreRefused, db)
          else if \<not> unique_after (map_option (varchar_val 13) (ub_isbn dto)) isbn
                     (\<lambda>b. book_id b = i) (books db)
          then (Inl UniqueViolation, db)
          else (case filter (\<lambda>b. book_id b = i) (books db) of
                  [] \<Rightarrow> Inl (NotFoundException ''Book'' i)
                | b # _ \<Rightarrow> Inr (apply_book_set (updateData now dto) b),
                db\<lparr>books := map (\<lambda>b. if book_id b = i
                                      then apply_book_set (updateData now dto) b else b)
                                 (books db)\<rparr>))"
proof -
  have s: "bset_isbn (updateData now dto) = ub_isbn dto"
    by (simp add: updateData_def)
  show ?thesis
    by (cases "filter (\<lambda>b. book_id b = i) (books db)")
      (simp_all add: update_book_def update_books_def bind_io_def throw_def return_io_def
        first_row_def s split: option.splits)
qed

lemma price_apply_book_set:
  "bset_price s = Some v \<Longrightarrow> numeric_in v \<noteq> None \<Longrightarrow>
     numeric_in v = Some (price (apply_book_set s b))"
  by (auto simp: apply_book_set_def)

lemma book_id_apply_book_set: "book_id (apply_book_set s b) = book_id b"
  by (simp add: apply_book_set_def)

lemma book_set_ok_price: "book_set_ok s \<Longrightarrow> bset_price s = Some v \<Longrightarrow> numeric_in v \<noteq> None"
  by (simp add: book_set_ok_def opt_ok_def)

text \<open>
  C10. In \<open>update\<close> of the books service a price of 0 is left a number in the object
  handed to the store, and every other price is replaced by its string form. When the
  update succeeds, the store is the one before it with that object applied to the rows
  of the id, the book returned is one of these rows, and its price is what the store
  reads from the number 0 in the first case and from the string in the second. The
  update succeeds for a book that exists once, an id in the 32-bit range and a request
  without an ISBN whose values the driver and the store accept.
\<close>

theorem update_price_conversion:
  "(ub_price dto = Some 0 \<longrightarrow> bset_price (updateData now dto) = Some (Number 0)) \<and>
   (\<forall>p. ub_price dto = Some p \<and> p \<noteq> 0 \<longrightarrow>
      bset_price (updateData now dto) = Some (NumberString p)) \<and>
   (\<forall>b' db'. update_book now i dto db = (Inr b', db') \<longrightarrow>
      db' = db\<lparr>books := map (\<lambda>b. if book_id b = i
                                   then apply_book_set (updateData now dto) b else b)
                              (books db)\<rparr> \<and>
      b' \<in> set (books db') \<and> book_id b' = i \<and>
      (ub_price dto = Some 0 \<longrightarrow> numeric_in (Number 0) = Some (price b')) \<and>
      (\<forall>p. ub_price dto = Some p \<and> p \<noteq> 0 \<longrightarrow>
         numeric_in (NumberString p) = Some (price b'))) \<and>
   (\<forall>b. filter (\<lambda>b. book_id b = i) (books db) = [b] \<and> int4 i \<and> ub_isbn dto = None \<and>
        driver_error (updateData now dto) = None \<and> book_set_ok (updateData now dto) \<longrightarrow>
      update_book now i dto db =
        (Inr (apply_book_set (updateData now dto) b),
         db\<lparr>books := map (\<lambda>b. if book_id b = i
                                then apply_book_set (updateData now dto) b else b)
                           (books db)\<rparr>))"
proof -
  let ?S = "updateData now dto"
  let ?db = "db\<lparr>books := map (\<lambda>b. if book_id b = i then apply_book_set ?S b else b) (books db)\<rparr>"
  have zero: "ub_price dto = Some 0 \<longrightarrow> bset_price ?S = Some (Number 0)"
    by (simp add: updateData_def)
  have other: "\<forall>p. ub_price dto = Some p \<and> p \<noteq> 0 \<longrightarrow> bset_price ?S = Some (NumberString p)"
    by (simp add: updateData_def)
  have after: "db' = ?db \<and> b' \<in> set (books db') \<and> book_id b' = i \<and>
      (ub_price dto = Some 0 \<longrightarrow> numeric_in (Number 0) = Some (price b')) \<and>
      (\<forall>p. ub_price dto = Some p \<and> p \<noteq> 0 \<longrightarrow> numeric_in (NumberString p) = Some (price b'))"
    if u: "update_book now i dto db = (Inr b', db')" for b' db'
  proof -
    from u have ok: "book_set_ok ?S" and d: "db' = ?db"
      by (auto simp: update_book_result split: option.splits if_splits list.splits)
    from u obtain b rest where f: "filter (\<lambda>b. book_id b = i) (books db) = b # rest"
      and b': "b' = apply_book_set ?S b"
      by (auto simp: update_book_result split: option.splits if_splits list.splits)
    from f have "b \<in> set (filter (\<lambda>b. book_id b = i) (books db))" by simp
    then have m: "b \<in> set (books db)" "book_id b = i" by simp_all
    have "apply_book_set ?S b \<in> set (map (\<lambda>b. if book_id b = i then apply_book_set ?S b else b)
        (books db))"
      using m by force
    then have mem: "b' \<in> set (books db')" by (simp add: d b')
    have bid: "book_id b' = i" using m(2) by (simp add: b' book_id_apply_book_set)
    have pr: "numeric_in v = Some (price b')" if "bset_price ?S = Some v" for v
      unfolding b' using that book_set_ok_price [OF ok that] by (rule price_apply_book_set)
    from d mem bid pr zero other show ?thesis by blast
  qed
  have succeeds: "update_book now i dto db = (Inr (apply_book_set ?S b), ?db)"
    if "filter (\<lambda>b. book_id b = i) (books db) = [b]" "int4 i" "ub_isbn dto = None"
      "driver_error ?S = None" "book_set_ok ?S" for b
    using that by (simp add: update_book_result unique_after_def)
  from zero other after succeeds show ?thesis by blast
qed

theorem update_price_conversion_witness:
  "bset_price (updateData 7 (price_update 0)) = Some (Number 0) \<and>
   bset_price (updateData 7 (price_update 2)) = Some (NumberString 2) \<and>
   update_book 7 1 (price_update 0) demo_db = (Inr zero_emma, demo_db\<lparr>books := [zero_emma]\<rparr>) \<and>
   update_book 7 1 (price_update 2) demo_db = (Inr two_emma, demo_db\<lparr>books := [two_emma]\<rparr>) \<and>
   price zero_emma = ''0.00'' \<and> price two_emma = ''2.00''"
proof -
  have f: "filter (\<lambda>b. book_id b = 1) (books demo_db) = [emma]"
    by (simp add: demo_db_def emma_def)
  have r: "int4 1" by (simp add: int4_def)
  have z: "ub_price (price_update 0) = Some 0" "ub_isbn (price_update 0) = None"
    "ub_price (price_update 2) = Some 2" "ub_isbn (price_update 2) = None"
    by (simp_all add: price_update_def)
  have d: "driver_error (updateData 7 (price_update 0)) = None"
    "driver_error (updateData 7 (price_update 2)) = None"
    by (simp_all add: driver_error_def updateData_def price_update_def)
  have k: "book_set_ok (updateData 7 (price_update 0))"
    "book_set_ok (updateData 7 (price_update 2))"
    by (simp_all add: book_set_ok_def updateData_def price_update_def opt_ok_def
        numeric_samples)
  have a: "apply_book_set (updateData 7 (price_update 0)) emma = zero_emma"
    "apply_book_set (updateData 7 (price_update 2)) emma = two_emma"
    by (simp_all add: apply_book_set_def updateData_def price_update_def assign_def
        numeric_samples zero_emma_def two_emma_def)
  have m: "map (\<lambda>b. if book_id b = 1
                then apply_book_set (updateData 7 (price_update 0)) b else b) (books demo_db) =
           [zero_emma]"
    "map (\<lambda>b. if book_id b = 1
                then apply_book_set (updateData 7 (price_update 2)) b else b) (books demo_db) =
           [two_emma]"
    using a by (simp_all add: demo_db_def) (simp_all add: emma_def)
  note t0 = update_price_conversion [where dto = "price_update 0" and now = 7 and i = 1
      and db = demo_db]
  note t2 = update_price_conversion [where dto = "price_update 2" and now = 7 and i = 1
      and db = demo_db]
  have b0: "bset_price (updateData 7 (price_update 0)) = Some (Number 0)"
    using t0 z(1) by blast
  have b2: "bset_price (updateData 7 (price_update 2)) = Some (NumberString 2)"
    using t2 [THEN conjunct2, THEN conjunct1, rule_format, of 2] z(3) by simp
  have u0: "update_book 7 1 (price_update 0) demo_db =
      (Inr zero_emma, demo_db\<lparr>books := [zero_emma]\<rparr>)"
    using t0 [THEN conjunct2, THEN conjunct2, THEN conjunct2, rule_format, of emma]
      f r z(2) d(1) k(1)
    unfolding a m by simp
  have u2: "update_book 7 1 (price_update 2) demo_db =
      (Inr two_emma, demo_db\<lparr>books := [two_emma]\<rparr>)"
    using t2 [THEN conjunct2, THEN conjunct2, THEN conjunct2, rule_format, of emma]
      f r z(4) d(2) k(2)
    unfolding a m by simp
  have p: "price zero_emma = ''0.00''" "price two_emma = ''2.00''"
    by (simp_all add: zero_emma_def two_emma_def)
  from b0 b2 u0 u2 p show ?thesis by (intro conjI)
qed

section \<open>AuthService: changing the password\<close>

lemma first_row_filter_mem: "first_row (filter P xs) = Some x \<Longrightarrow> x \<in> set xs \<and> P x"
proof -
  assume a: "first_row (filter P xs) = Some x"
  then obtain ys where "filter P xs = x # ys"
    by (cases "filter P xs") (simp_all add: first_row_def)
  then have "x \<in> set (filter P xs)" by simp
  then show ?thesis by simp
qed

lemma distinct_filter_single:
  "distinct (map f xs) \<Longrightarrow> x \<in> set xs \<Longrightarrow> filter (\<lambda>y. f y = f x) xs = [x]"
proof (induction xs)
  case Nil
  then show ?case by simp
next
  case (Cons a xs)
  show ?case
  proof (cases "a = x")
    case True
    have "f x \<notin> f ` set xs" using Cons.prems(1) True by simp
    then have "filter (\<lambda>y. f y = f x) xs = []" by (rule filter_absent)
    with True show ?thesis by simp
  next
    case False
    then have "x \<in> set xs" using Cons.prems(2) by simp
    moreover have "f a \<noteq> f x" using Cons.prems(1) \<open>x \<in> set xs\<close> by auto
    ultimately show ?thesis using Cons by simp
  qed
qed

lemma changePassword_result:
  "changePassword compare hash salt now i cur new db =
     (case first_row (filter (\<lambda>u. user_id u = i) (users db)) of
        None \<Rightarrow> (Inl (UnauthorizedException ''User not found or no password set''), db)
      | Some u \<Rightarrow>
          (case password u of
             None \<Rightarrow> (Inl (UnauthorizedException ''User not found or no password set''), db)
           | Some h \<Rightarrow>
               if h = [] then (Inl (UnauthorizedException ''User not found or no password set''), db)
               else if \<not> compare cur h
               then (Inl (UnauthorizedException ''Current password is incorrect''), db)
               else (Inr (), db\<lparr>users := map (\<lambda>r. if user_id r = i
                                   then r\<lparr>updatedAt := Some now, password := Some (hash salt new)\<rparr>
                                   else r) (users db)\<rparr>)))"
  by (simp add: changePassword_def findUserById_def io_defs update_users_def unique_after_def
      no_set_def apply_set_def assign_def split: option.splits list.splits)

text \<open>
  C3, as amended. \<open>changePassword\<close> raises \<open>UnauthorizedException\<close> and leaves the store
  as it was exactly when no user has the id, or the user has no password hash, or the
  current plaintext does not verify against the hash. Otherwise it writes the hash of
  the new plaintext and the clock into the rows of that id. After that, in a store
  whose emails are distinct, \<open>validateUser\<close> with the new plaintext returns the updated
  row, and \<open>validateUser\<close> with the old plaintext returns \<open>None\<close> provided the old
  plaintext does not verify against the new hash. The hasher is assumed to verify every
  plaintext against its own hash and none against the empty hash.
\<close>

theorem changePassword_contract:
  assumes "\<And>p. \<not> compare p []" and "\<And>s p. compare p (hash s p)"
  shows
   "((\<exists>m. changePassword compare hash salt now i cur new db = (Inl (UnauthorizedException m), db)) \<longleftrightarrow>
       (fst (findUserById i db) = Inr None \<or>
        (\<exists>u. fst (findUserById i db) = Inr (Some u) \<and>
             (password u = None \<or> (\<exists>h. password u = Some h \<and> \<not> compare cur h))))) \<and>
    (\<forall>u h. fst (findUserById i db) = Inr (Some u) \<and> password u = Some h \<and> compare cur h \<longrightarrow>
       changePassword compare hash salt now i cur new db =
         (Inr (), db\<lparr>users := map (\<lambda>r. if user_id r = i
                   then r\<lparr>updatedAt := Some now, password := Some (hash salt new)\<rparr>
                   else r) (users db)\<rparr>) \<and>
       (distinct (map email (users db)) \<longrightarrow>
          validateUser compare (email u) new
              (snd (changePassword compare hash salt now i cur new db)) =
            (Inr (Some (u\<lparr>updatedAt := Some now, password := Some (hash salt new)\<rparr>)),
             snd (changePassword compare hash salt now i cur new db)) \<and>
          (\<not> compare cur (hash salt new) \<longrightarrow>
             validateUser compare (email u) cur
                 (snd (changePassword compare hash salt now i cur new db)) =
               (Inr None, snd (changePassword compare hash salt now i cur new db)))))"
proof -
  let ?found = "first_row (filter (\<lambda>u. user_id u = i) (users db))"
  let ?g = "\<lambda>r. if user_id r = i
              then r\<lparr>updatedAt := Some now, password := Some (hash salt new)\<rparr> else r"
  have f: "fst (findUserById i db) = Inr ?found"
    by (simp add: findUserById_def bind_io_def select_users_def return_io_def)
  have ne: "hash salt new \<noteq> []"
    using assms(1) [of new] assms(2) [of new salt] by auto
  have one: "(\<exists>m. changePassword compare hash salt now i cur new db = (Inl (UnauthorizedException m), db)) \<longleftrightarrow>
       (?found = None \<or>
        (\<exists>u. ?found = Some u \<and>
             (password u = None \<or> (\<exists>h. password u = Some h \<and> \<not> compare cur h))))"
    using assms(1) [of cur]
    by (auto simp: changePassword_result split: option.splits)
  have two: "changePassword compare hash salt now i cur new db =
         (Inr (), db\<lparr>users := map ?g (users db)\<rparr>)"
    if "?found = Some u" "password u = Some h" "compare cur h" for u h
    using that assms(1) [of cur] by (auto simp: changePassword_result)
  have three: "validateUser compare (email u) pw (db\<lparr>users := map ?g (users db)\<rparr>) =
      (Inr (if compare pw (hash salt new)
            then Some (u\<lparr>updatedAt := Some now, password := Some (hash salt new)\<rparr>) else None),
       db\<lparr>users := map ?g (users db)\<rparr>)"
    if "?found = Some u" "distinct (map email (users db))" for u pw
  proof -
    from that(1) have m: "u \<in> set (users db)" "user_id u = i"
      using first_row_filter_mem [of "\<lambda>u. user_id u = i" "users db" u] by simp_all
    have "filter (\<lambda>y. email y = email u) (users db) = [u]"
      using that(2) m(1) by (rule distinct_filter_single)
    moreover have "filter (\<lambda>y. email y = email u) (map ?g (users db)) =
        map ?g (filter (\<lambda>y. email y = email u) (users db))"
      by (rule filter_map_same) simp
    ultimately have "filter (\<lambda>y. email y = email u) (map ?g (users db)) =
        [u\<lparr>updatedAt := Some now, password := Some (hash salt new)\<rparr>]"
      using m(2) by simp
    then show ?thesis
      using ne by (simp add: validateUser_def findUserByEmail_def io_defs)
  qed
  show ?thesis
    unfolding f using one two three assms(2) [of new salt]
    by (auto simp del: One_nat_def)
qed


lemma demo_found_alice: "fst (findUserById 1 demo_db) = Inr (Some alice)"
  by (simp add: findUserById_def io_defs demo_db_def alice_def bob_def)

theorem changePassword_contract_witness:
  "changePassword demo_compare demo_hash ''salt'' 9 1 ''secret1'' ''secret2'' demo_db =
     (Inr (), demo_db\<lparr>users := [alice\<lparr>updatedAt := Some 9, password := Some ''saltsecret2''\<rparr>, bob]\<rparr>) \<and>
   fst (validateUser demo_compare ''a@b.com'' ''secret2''
          (snd (changePassword demo_compare demo_hash ''salt'' 9 1 ''secret1'' ''secret2'' demo_db))) =
     Inr (Some (alice\<lparr>updatedAt := Some 9, password := Some ''saltsecret2''\<rparr>)) \<and>
   fst (validateUser demo_compare ''a@b.com'' ''secret1''
          (snd (changePassword demo_compare demo_hash ''salt'' 9 1 ''secret1'' ''secret2'' demo_db))) =
     Inr None \<and>
   changePassword demo_compare demo_hash ''salt'' 9 1 ''wrong'' ''secret2'' demo_db =
     (Inl (UnauthorizedException ''Current password is incorrect''), demo_db) \<and>
   changePassword demo_compare demo_hash ''salt'' 9 2 ''secret1'' ''secret2'' demo_db =
     (Inl (UnauthorizedException ''User not found or no password set''), demo_db)"
proof -
  have c: "\<And>p. \<not> demo_compare p []" by (simp add: demo_compare_def)
  have h: "\<And>s p. demo_compare p (demo_hash s p)"
    by (simp add: demo_compare_def demo_hash_def)
  have d: "distinct (map email (users demo_db))"
    by (simp add: demo_db_def alice_def bob_def)
  have v: "demo_compare ''secret1'' ''saltsecret1''"
    "\<not> demo_compare ''secret1'' (demo_hash ''salt'' ''secret2'')"
    by (simp_all add: demo_compare_def demo_hash_def)
  have p: "password alice = Some ''saltsecret1''" "email alice = ''a@b.com''"
    by (simp_all add: alice_def)
  have m: "map (\<lambda>r. if user_id r = 1
                then r\<lparr>updatedAt := Some 9, password := Some ''saltsecret2''\<rparr> else r)
             (users demo_db) =
           [alice\<lparr>updatedAt := Some 9, password := Some ''saltsecret2''\<rparr>, bob]"
    by (simp add: demo_db_def alice_def bob_def)
  have w: "changePassword demo_compare demo_hash ''salt'' 9 1 ''wrong'' ''secret2'' demo_db =
     (Inl (UnauthorizedException ''Current password is incorrect''), demo_db)"
    "changePassword demo_compare demo_hash ''salt'' 9 2 ''secret1'' ''secret2'' demo_db =
     (Inl (UnauthorizedException ''User not found or no password set''), demo_db)"
    by (simp_all add: changePassword_result first_row_def demo_db_def alice_def bob_def
        demo_compare_def)
  note t = changePassword_contract [where compare = demo_compare and hash = demo_hash
        and salt = "''salt''" and now = 9 and i = 1 and cur = "''secret1''"
        and new = "''secret2''" and db = demo_db, OF c h]
  have s: "demo_hash ''salt'' ''secret2'' = ''saltsecret2''"
    by (simp add: demo_hash_def)
  from t have "\<forall>u h. fst (findUserById 1 demo_db) = Inr (Some u) \<and> password u = Some h \<and>
      demo_compare ''secret1'' h \<longrightarrow>
       changePassword demo_compare demo_hash ''salt'' 9 1 ''secret1'' ''secret2'' demo_db =
         (Inr (), demo_db\<lparr>users := map (\<lambda>r. if user_id r = 1
                   then r\<lparr>updatedAt := Some 9, password := Some (demo_hash ''salt'' ''secret2'')\<rparr>
                   else r) (users demo_db)\<rparr>) \<and>
       (distinct (map email (users demo_db)) \<longrightarrow>
          validateUser demo_compare (email u) ''secret2''
              (snd (changePassword demo_compare demo_hash ''salt'' 9 1 ''secret1'' ''secret2'' demo_db)) =
            (Inr (Some (u\<lparr>updatedAt := Some 9, password := Some (demo_hash ''salt'' ''secret2'')\<rparr>)),
             snd (changePassword demo_compare demo_hash ''salt'' 9 1 ''secret1'' ''secret2'' demo_db)) \<and>
          (\<not> demo_compare ''secret1'' (demo_hash ''salt'' ''secret2'') \<longrightarrow>
             validateUser demo_compare (email u) ''secret1''
                 (snd (changePassword demo_compare demo_hash ''salt'' 9 1 ''secret1'' ''secret2'' demo_db)) =
               (Inr None, snd (changePassword demo_compare demo_hash ''salt'' 9 1 ''secret1'' ''secret2'' demo_db))))"
    by (rule conjunct2)
  note r = this [rule_format, of alice "''saltsecret1''", unfolded s m]
  have pre: "fst (findUserById 1 demo_db) = Inr (Some alice) \<and>
      password alice = Some ''saltsecret1'' \<and> demo_compare ''secret1'' ''saltsecret1''"
    using demo_found_alice p(1) v(1) by simp
  have r1: "changePassword demo_compare demo_hash ''salt'' 9 1 ''secret1'' ''secret2'' demo_db =
     (Inr (), demo_db\<lparr>users := [alice\<lparr>updatedAt := Some 9, password := Some ''saltsecret2''\<rparr>, bob]\<rparr>)"
    using r [OF pre] by (rule conjunct1)
  have r2: "validateUser demo_compare (email alice) ''secret2''
       (snd (changePassword demo_compare demo_hash ''salt'' 9 1 ''secret1'' ''secret2'' demo_db)) =
      (Inr (Some (alice\<lparr>updatedAt := Some 9, password := Some ''saltsecret2''\<rparr>)),
       snd (changePassword demo_compare demo_hash ''salt'' 9 1 ''secret1'' ''secret2'' demo_db))"
    using r [OF pre] d by blast
  have r3: "validateUser demo_compare (email alice) ''secret1''
        (snd (changePassword demo_compare demo_hash ''salt'' 9 1 ''secret1'' ''secret2'' demo_db)) =
       (Inr None, snd (changePassword demo_compare demo_hash ''salt'' 9 1 ''secret1'' ''secret2'' demo_db))"
    using r [OF pre] d v(2) unfolding s by blast
  show ?thesis
    using r1 r2 r3 w unfolding p(2) by simp
qed

text \<open>
  C3 as stated fails when the new password is the current one: the change succeeds and
  the old password still validates.
\<close>

theorem changePassword_same_password_counterexample:
  "fst (changePassword demo_compare demo_hash ''salt'' 9 1 ''secret1'' ''secret1'' demo_db) = Inr () \<and>
   fst (validateUser demo_compare ''a@b.com'' ''secret1''
          (snd (changePassword demo_compare demo_hash ''salt'' 9 1 ''secret1'' ''secret1'' demo_db))) =
     Inr (Some (alice\<lparr>updatedAt := Some 9\<rparr>))"
  by (simp add: changePassword_result validateUser_def findUserByEmail_def io_defs
      demo_db_def alice_def bob_def demo_compare_def demo_hash_def)

section \<open>AuthService: registration\<close>

lemma register_result:
  "register hash sign salt now d db =
     (case first_row (filter (\<lambda>u. email u = reg_email d) (users db)) of
        Some _ \<Rightarrow> (Inl (UnauthorizedException ''User already exists''), db)
      | None \<Rightarrow>
          (let r = \<lparr>user_id = users_seq db + 1, email = reg_email d,
                    firstName = reg_firstName d, lastName = reg_lastName d, googleId = None,
                    avatar = None, isActive = Some True, createdAt = Some now,
                    updatedAt = Some now, password = Some (hash salt (reg_password d))\<rparr>
           in if users_seq db + 1 \<in> user_id ` set (users db)
              then (Inl UniqueViolation, db\<lparr>users_seq := users_seq db + 1\<rparr>)
              else (Inr (login sign r),
                    db\<lparr>users_seq := users_seq db + 1, users := users db @ [r]\<rparr>)))"
proof (cases "filter (\<lambda>u. email u = reg_email d) (users db)")
  case Nil
  then have "reg_email d \<notin> email ` set (users db)"
    by (auto simp: filter_empty_conv)
  with Nil show ?thesis
    by (simp add: register_def findUserByEmail_def io_defs insert_user_def insert_ok_def
        new_row_def Let_def)
next
  case (Cons a as)
  then show ?thesis
    by (simp add: register_def findUserByEmail_def io_defs)
qed

lemma wf_users_fresh: "wf_users db \<Longrightarrow> users_seq db + 1 \<notin> user_id ` set (users db)"
  by (auto simp: wf_users_def list_all_iff)

text \<open>
  C4. \<open>register\<close> raises \<open>UnauthorizedException\<close> with the message
  \<^verbatim>\<open>User already exists\<close>, the conflict of the spec, when a user has the email, and
  leaves the store as it was. Otherwise, in a store that meets the constraints of the
  schema, it appends a row with the next id, the hash of the password, the names given
  and \<open>isActive\<close> true, and returns \<open>login\<close> of that row. After a registration that
  succeeded exactly one row has the email, and registering the same email again raises
  the conflict and leaves that one row.
\<close>

theorem register_contract:
  "(\<forall>u. fst (findUserByEmail (reg_email d) db) = Inr (Some u) \<longrightarrow>
      register hash sign salt now d db =
        (Inl (UnauthorizedException ''User already exists''), db)) \<and>
   (fst (findUserByEmail (reg_email d) db) = Inr None \<and> wf_users db \<longrightarrow>
      (let r = \<lparr>user_id = users_seq db + 1, email = reg_email d,
                 firstName = reg_firstName d, lastName = reg_lastName d, googleId = None,
                 avatar = None, isActive = Some True, createdAt = Some now,
                 updatedAt = Some now, password = Some (hash salt (reg_password d))\<rparr>
       in register hash sign salt now d db =
            (Inr (login sign r),
             db\<lparr>users_seq := users_seq db + 1, users := users db @ [r]\<rparr>))) \<and>
   (\<forall>res db1. register hash sign salt now d db = (Inr res, db1) \<longrightarrow>
      length (filter (\<lambda>u. email u = reg_email d) (users db1)) = 1 \<and>
      (\<forall>d'. reg_email d' = reg_email d \<longrightarrow>
         register hash sign salt' now' d' db1 =
           (Inl (UnauthorizedException ''User already exists''), db1) \<and>
         length (filter (\<lambda>u. email u = reg_email d)
           (users (snd (register hash sign salt' now' d' db1)))) = 1))"
proof -
  let ?found = "first_row (filter (\<lambda>u. email u = reg_email d) (users db))"
  have f: "fst (findUserByEmail (reg_email d) db) = Inr ?found"
    by (simp add: findUserByEmail_def bind_io_def select_users_def return_io_def)
  have one: "register hash sign salt now d db =
        (Inl (UnauthorizedException ''User already exists''), db)" if "?found = Some u" for u
    using that by (simp add: register_result)
  have two: "let r = \<lparr>user_id = users_seq db + 1, email = reg_email d,
                 firstName = reg_firstName d, lastName = reg_lastName d, googleId = None,
                 avatar = None, isActive = Some True, createdAt = Some now,
                 updatedAt = Some now, password = Some (hash salt (reg_password d))\<rparr>
       in register hash sign salt now d db =
            (Inr (login sign r),
             db\<lparr>users_seq := users_seq db + 1, users := users db @ [r]\<rparr>)"
    if "?found = None" "wf_users db"
    using that(1) wf_users_fresh [OF that(2)] by (simp add: register_result Let_def)
  have three: "length (filter (\<lambda>u. email u = reg_email d) (users db1)) = 1 \<and>
      (\<forall>d'. reg_email d' = reg_email d \<longrightarrow>
         register hash sign salt' now' d' db1 =
           (Inl (UnauthorizedException ''User already exists''), db1) \<and>
         length (filter (\<lambda>u. email u = reg_email d)
           (users (snd (register hash sign salt' now' d' db1)))) = 1)"
    if "register hash sign salt now d db = (Inr res, db1)" for res db1
  proof -
    from that have n: "filter (\<lambda>u. email u = reg_email d) (users db) = []"
      by (cases "filter (\<lambda>u. email u = reg_email d) (users db)")
        (simp_all add: register_result first_row_def)
    with that have "\<exists>r. email r = reg_email d \<and> users db1 = users db @ [r]"
      by (auto simp: register_result first_row_def Let_def split: if_splits)
    then obtain r where r: "email r = reg_email d" "users db1 = users db @ [r]" by blast
    have l: "filter (\<lambda>u. email u = reg_email d) (users db1) = [r]"
      using n r by simp
    then show ?thesis
      by (simp add: register_result first_row_def)
  qed
  show ?thesis unfolding f using one two three by blast
qed


lemma wf_demo_db: "wf_users demo_db"
  by (simp add: wf_users_def demo_db_def alice_def bob_def)

theorem register_contract_witness:
  "register demo_hash demo_sign ''salt'' 9 alice_reg demo_db =
     (Inl (UnauthorizedException ''User already exists''), demo_db) \<and>
   register demo_hash demo_sign ''salt'' 9 carol_reg demo_db =
     (Inr (login demo_sign carol), demo_db\<lparr>users_seq := 3, users := [alice, bob, carol]\<rparr>) \<and>
   register demo_hash demo_sign ''pepper'' 10 carol_reg
       (demo_db\<lparr>users_seq := 3, users := [alice, bob, carol]\<rparr>) =
     (Inl (UnauthorizedException ''User already exists''),
      demo_db\<lparr>users_seq := 3, users := [alice, bob, carol]\<rparr>) \<and>
   length (filter (\<lambda>u. email u = ''c@b.com'') [alice, bob, carol]) = 1"
proof -
  have a: "fst (findUserByEmail (reg_email alice_reg) demo_db) = Inr (Some alice)"
    by (simp add: findUserByEmail_def io_defs demo_db_def alice_def bob_def alice_reg_def)
  have c: "fst (findUserByEmail (reg_email carol_reg) demo_db) = Inr None"
    by (simp add: findUserByEmail_def io_defs demo_db_def alice_def bob_def carol_reg_def)
  have r: "\<lparr>user_id = 3, email = reg_email carol_reg,
                 firstName = reg_firstName carol_reg, lastName = reg_lastName carol_reg,
                 googleId = None, avatar = None, isActive = Some True, createdAt = Some 9,
                 updatedAt = Some 9,
                 password = Some (demo_hash ''salt'' (reg_password carol_reg))\<rparr> = carol"
    by (simp add: carol_def carol_reg_def demo_db_def demo_hash_def)
  have s: "users_seq demo_db + 1 = 3" "users demo_db @ [carol] = [alice, bob, carol]"
    by (simp_all add: demo_db_def)
  note t = register_contract [where hash = demo_hash and sign = demo_sign and salt = "''salt''"
      and now = 9 and db = demo_db and salt' = "''pepper''" and now' = 10]
  have one: "register demo_hash demo_sign ''salt'' 9 alice_reg demo_db =
     (Inl (UnauthorizedException ''User already exists''), demo_db)"
    using t [where d = alice_reg] a by blast
  have two: "register demo_hash demo_sign ''salt'' 9 carol_reg demo_db =
     (Inr (login demo_sign carol), demo_db\<lparr>users_seq := 3, users := [alice, bob, carol]\<rparr>)"
    using t [where d = carol_reg] c wf_demo_db unfolding Let_def s(1) r s(2) by blast
  have three: "length (filter (\<lambda>u. email u = reg_email carol_reg)
        (users (demo_db\<lparr>users_seq := 3, users := [alice, bob, carol]\<rparr>))) = 1 \<and>
      register demo_hash demo_sign ''pepper'' 10 carol_reg
          (demo_db\<lparr>users_seq := 3, users := [alice, bob, carol]\<rparr>) =
        (Inl (UnauthorizedException ''User already exists''),
         demo_db\<lparr>users_seq := 3, users := [alice, bob, carol]\<rparr>)"
    using t [where d = carol_reg] two by blast
  have e: "reg_email carol_reg = ''c@b.com''" by (simp add: carol_reg_def)
  show ?thesis using one two three unfolding e by simp
qed

section \<open>AuthService: third-party login\<close>

lemma apply_set_link:
  "apply_set (no_set\<lparr>set_googleId := Some g, set_avatar := photo\<rparr>) r = link_row g photo r"
  by (simp add: apply_set_def no_set_def assign_def link_row_def)

lemma filter_empty_absent: "filter (\<lambda>x. f x = v) xs = [] \<Longrightarrow> v \<notin> f ` set xs"
  by (auto simp: filter_empty_conv)

lemma first_row_None: "first_row xs = None \<longleftrightarrow> xs = []"
  by (cases xs) (simp_all add: first_row_def)

lemma googleLogin_found:
  assumes "emails p = e # es"
    and "first_row (filter (\<lambda>u. googleId u = Some (profile_id p)) (users db)) = Some u"
  shows "googleLogin sign now p db = (Inr (login sign u), db)"
  using assms by (simp add: googleLogin_def findUserByGoogleId_def io_defs split: list.splits)

lemma googleLogin_link:
  assumes "emails p = e # es"
    and "filter (\<lambda>u. googleId u = Some (profile_id p)) (users db) = []"
    and "first_row (filter (\<lambda>u. email u = e) (users db)) = Some u"
  shows "googleLogin sign now p db =
     (if unique_after (Some (Some (profile_id p))) googleId (\<lambda>r. user_id r = user_id u) (users db)
      then (Inr (login sign (u\<lparr>googleId := Some (profile_id p), avatar := first_row (photos p)\<rparr>)),
            db\<lparr>users := map (\<lambda>r. if user_id r = user_id u
                                 then link_row (profile_id p) (first_row (photos p)) r else r)
                            (users db)\<rparr>)
      else (Inl UniqueViolation, db))"
proof -
  have a: "unique_after (set_email no_set) email (\<lambda>r. user_id r = user_id u) (users db)"
    by (simp add: unique_after_def no_set_def)
  have b: "set_googleId (no_set\<lparr>set_googleId := Some (profile_id p),
      set_avatar := first_row (photos p)\<rparr>) = Some (profile_id p)"
    by simp
  have c: "first_row (filter (\<lambda>u. googleId u = Some (profile_id p)) (users db)) = None"
    using assms(2) by (simp add: first_row_def)
  show ?thesis
    unfolding googleLogin_def assms(1) list.case findUserByGoogleId_def findUserByEmail_def
    by (simp add: bind_io_def select_users_def return_io_def c assms(3) update_users_def a b
        apply_set_link)
qed

lemma googleLogin_create:
  assumes "emails p = e # es"
    and "filter (\<lambda>u. googleId u = Some (profile_id p)) (users db) = []"
    and "filter (\<lambda>u. email u = e) (users db) = []"
  shows "googleLogin sign now p db =
     (if users_seq db + 1 \<in> user_id ` set (users db)
      then (Inl UniqueViolation, db\<lparr>users_seq := users_seq db + 1\<rparr>)
      else (Inr (login sign (google_row (users_seq db + 1) now e p)),
            db\<lparr>users_seq := users_seq db + 1,
               users := users db @ [google_row (users_seq db + 1) now e p]\<rparr>))"
proof -
  have g: "Some (profile_id p) \<notin> googleId ` set (users db)"
    using assms(2) by (rule filter_empty_absent)
  have m: "e \<notin> email ` set (users db)"
    using assms(3) by (rule filter_empty_absent)
  show ?thesis
    unfolding googleLogin_def assms(1) list.case findUserByGoogleId_def findUserByEmail_def
    using g m
    by (simp add: bind_io_def select_users_def return_io_def first_row_def assms(2,3)
        insert_user_def insert_ok_def new_row_def google_row_def Let_def)
qed


lemma user_id_login: "user_id (user (login sign u)) = user_id u"
  by (simp add: login_def omit_password_def)

lemma filter_linked:
  assumes "filter (\<lambda>u. googleId u = Some g) us = []"
  shows "filter (\<lambda>u. googleId u = Some g)
           (map (\<lambda>r. if user_id r = i then link_row g photo r else r) us) =
         map (link_row g photo) (filter (\<lambda>r. user_id r = i) us)"
  using assms by (induction us) (auto simp: link_row_def split: if_splits)

lemma googleLogin_then_found:
  assumes "emails p = e # es" and "googleLogin sign now p db = (Inr res, db1)"
  shows "\<exists>u'. first_row (filter (\<lambda>u. googleId u = Some (profile_id p)) (users db1)) = Some u' \<and>
              user_id u' = user_id (user res)"
proof (cases "first_row (filter (\<lambda>u. googleId u = Some (profile_id p)) (users db))")
  case (Some u)
  have "googleLogin sign now p db = (Inr (login sign u), db)"
    using assms(1) Some by (rule googleLogin_found)
  with assms(2) have "res = login sign u" "db1 = db" by simp_all
  then show ?thesis using Some by (simp add: user_id_login)
next
  case None
  then have n: "filter (\<lambda>u. googleId u = Some (profile_id p)) (users db) = []"
    by (simp add: first_row_None)
  show ?thesis
  proof (cases "first_row (filter (\<lambda>u. email u = e) (users db))")
    case (Some u)
    let ?P = "\<lambda>r. user_id r = user_id u"
    from first_row_filter_mem [OF Some] have "u \<in> set (users db)" by simp
    then have "u \<in> set (filter ?P (users db))" by simp
    then obtain u0 rest where f: "filter ?P (users db) = u0 # rest"
      by (cases "filter ?P (users db)") auto
    then have "u0 \<in> set (filter ?P (users db))" by simp
    then have i: "user_id u0 = user_id u" by simp
    note L = googleLogin_link [OF assms(1) n Some, of sign now]
    have c: "unique_after (Some (Some (profile_id p))) googleId ?P (users db)"
      using assms(2) unfolding L by (simp split: if_splits)
    have "(Inr res, db1) =
        (Inr (login sign (u\<lparr>googleId := Some (profile_id p), avatar := first_row (photos p)\<rparr>)),
         db\<lparr>users := map (\<lambda>r. if user_id r = user_id u
                 then link_row (profile_id p) (first_row (photos p)) r else r) (users db)\<rparr>)"
      using assms(2) L c by simp
    then have r: "res = login sign (u\<lparr>googleId := Some (profile_id p),
          avatar := first_row (photos p)\<rparr>)"
      and d0: "db1 = db\<lparr>users := map (\<lambda>r. if user_id r = user_id u
                 then link_row (profile_id p) (first_row (photos p)) r else r) (users db)\<rparr>"
      by simp_all
    have d: "users db1 = map (\<lambda>r. if user_id r = user_id u
                 then link_row (profile_id p) (first_row (photos p)) r else r) (users db)"
      unfolding d0 by simp
    have "first_row (filter (\<lambda>u. googleId u = Some (profile_id p)) (users db1)) =
        Some (link_row (profile_id p) (first_row (photos p)) u0)"
      unfolding d filter_linked [OF n] f by (simp add: first_row_def)
    moreover have "user_id (link_row (profile_id p) (first_row (photos p)) u0) =
        user_id (user res)"
      using i by (simp add: r user_id_login link_row_def)
    ultimately show ?thesis by blast
  next
    case None
    then have m: "filter (\<lambda>u. email u = e) (users db) = []"
      by (simp add: first_row_None)
    note C = googleLogin_create [OF assms(1) n m, of sign now]
    have c: "users_seq db + 1 \<notin> user_id ` set (users db)"
      using assms(2) unfolding C by (simp split: if_splits)
    have "(Inr res, db1) =
        (Inr (login sign (google_row (users_seq db + 1) now e p)),
         db\<lparr>users_seq := users_seq db + 1,
            users := users db @ [google_row (users_seq db + 1) now e p]\<rparr>)"
      using assms(2) C c by simp
    then have r: "res = login sign (google_row (users_seq db + 1) now e p)"
      and d0: "db1 = db\<lparr>users_seq := users_seq db + 1,
            users := users db @ [google_row (users_seq db + 1) now e p]\<rparr>"
      by simp_all
    have d: "users db1 = users db @ [google_row (users_seq db + 1) now e p]"
      unfolding d0 by simp
    show ?thesis
      unfolding d r by (simp add: n first_row_def google_row_def user_id_login)
  qed
qed

lemma findUserByGoogleId_fst:
  "fst (findUserByGoogleId g db) = Inr (first_row (filter (\<lambda>u. googleId u = Some g) (users db)))"
  by (simp add: findUserByGoogleId_def bind_io_def select_users_def return_io_def)

lemma findUserByEmail_fst:
  "fst (findUserByEmail e db) = Inr (first_row (filter (\<lambda>u. email u = e) (users db)))"
  by (simp add: findUserByEmail_def bind_io_def select_users_def return_io_def)

lemma googleLogin_link_wf:
  assumes "emails p = e # es"
    and "filter (\<lambda>u. googleId u = Some (profile_id p)) (users db) = []"
    and "first_row (filter (\<lambda>u. email u = e) (users db)) = Some u"
    and "wf_users db"
  shows "googleLogin sign now p db =
       (Inr (login sign (u\<lparr>googleId := Some (profile_id p), avatar := first_row (photos p)\<rparr>)),
        db\<lparr>users := map (\<lambda>r. if user_id r = user_id u
                 then link_row (profile_id p) (first_row (photos p)) r else r) (users db)\<rparr>)"
    and "filter (\<lambda>r. email r = e) (map (\<lambda>r. if user_id r = user_id u
                 then link_row (profile_id p) (first_row (photos p)) r else r) (users db)) =
         [link_row (profile_id p) (first_row (photos p)) u]"
    and "filter (\<lambda>r. googleId r = Some (profile_id p)) (map (\<lambda>r. if user_id r = user_id u
                 then link_row (profile_id p) (first_row (photos p)) r else r) (users db)) =
         [link_row (profile_id p) (first_row (photos p)) u]"
proof -
  let ?H = "\<lambda>r. if user_id r = user_id u
                 then link_row (profile_id p) (first_row (photos p)) r else r"
  from assms(3) have m: "u \<in> set (users db)" "email u = e"
    using first_row_filter_mem [of "\<lambda>u. email u = e" "users db" u] by simp_all
  have di: "distinct (map user_id (users db))" and de: "distinct (map email (users db))"
    using assms(4) by (simp_all add: wf_users_def)
  have fi: "filter (\<lambda>r. user_id r = user_id u) (users db) = [u]"
    using di m(1) by (rule distinct_filter_single)
  have fe: "filter (\<lambda>r. email r = e) (users db) = [u]"
    using distinct_filter_single [OF de m(1)] m(2) by simp
  have no: "list_all (\<lambda>r. googleId r \<noteq> Some (profile_id p))
      (filter (\<lambda>r. user_id r \<noteq> user_id u) (users db))"
    using assms(2) by (auto simp: list_all_iff filter_empty_conv)
  have ok: "unique_after (Some (Some (profile_id p))) googleId (\<lambda>r. user_id r = user_id u)
      (users db)"
    by (simp add: unique_after_def fi no)
  show "googleLogin sign now p db =
       (Inr (login sign (u\<lparr>googleId := Some (profile_id p), avatar := first_row (photos p)\<rparr>)),
        db\<lparr>users := map ?H (users db)\<rparr>)"
    by (simp add: googleLogin_link [OF assms(1,2,3)] ok)
  have "filter (\<lambda>r. email r = e) (map ?H (users db)) = map ?H (filter (\<lambda>r. email r = e) (users db))"
    by (rule filter_map_same) (simp add: link_row_def)
  then show "filter (\<lambda>r. email r = e) (map ?H (users db)) =
      [link_row (profile_id p) (first_row (photos p)) u]"
    by (simp add: fe)
  show "filter (\<lambda>r. googleId r = Some (profile_id p)) (map ?H (users db)) =
      [link_row (profile_id p) (first_row (photos p)) u]"
    by (simp add: filter_linked [OF assms(2)] fi)
qed

text \<open>
  C1. For a profile with a first email \<open>e\<close>: when a user has the google id of the
  profile, \<open>googleLogin\<close> logs that user in and leaves the store as it was, whatever
  the email. Otherwise, when a user has the email \<open>e\<close>, the row of that user is
  updated to carry the google id and no row is inserted: the table keeps its length,
  exactly one row has the email, exactly one row has the google id, it is the same row,
  and its password hash is the one it had. Otherwise a row with no password hash is
  appended. The second and third case are stated for a store that meets the constraints
  of the schema. After any call that succeeded, a call with the same google id logs in a
  user of the same id and leaves the store as the first call left it.
\<close>

theorem googleLogin_upsert:
  assumes "emails p = e # es"
  shows
   "(\<forall>u. fst (findUserByGoogleId (profile_id p) db) = Inr (Some u) \<longrightarrow>
       googleLogin sign now p db = (Inr (login sign u), db)) \<and>
    (\<forall>u. fst (findUserByGoogleId (profile_id p) db) = Inr None \<and>
         fst (findUserByEmail e db) = Inr (Some u) \<and> wf_users db \<longrightarrow>
       googleLogin sign now p db =
         (Inr (login sign (u\<lparr>googleId := Some (profile_id p), avatar := first_row (photos p)\<rparr>)),
          db\<lparr>users := map (\<lambda>r. if user_id r = user_id u
                   then link_row (profile_id p) (first_row (photos p)) r else r) (users db)\<rparr>) \<and>
       length (users (snd (googleLogin sign now p db))) = length (users db) \<and>
       filter (\<lambda>r. email r = e) (users (snd (googleLogin sign now p db))) =
         [link_row (profile_id p) (first_row (photos p)) u] \<and>
       filter (\<lambda>r. googleId r = Some (profile_id p)) (users (snd (googleLogin sign now p db))) =
         [link_row (profile_id p) (first_row (photos p)) u] \<and>
       password (link_row (profile_id p) (first_row (photos p)) u) = password u \<and>
       googleId (link_row (profile_id p) (first_row (photos p)) u) = Some (profile_id p)) \<and>
    (fst (findUserByGoogleId (profile_id p) db) = Inr None \<and>
     fst (findUserByEmail e db) = Inr None \<and> wf_users db \<longrightarrow>
       googleLogin sign now p db =
         (Inr (login sign (google_row (users_seq db + 1) now e p)),
          db\<lparr>users_seq := users_seq db + 1,
             users := users db @ [google_row (users_seq db + 1) now e p]\<rparr>) \<and>
       password (google_row (users_seq db + 1) now e p) = None) \<and>
    (\<forall>res db1. googleLogin sign now p db = (Inr res, db1) \<longrightarrow>
       (\<forall>p' now'. profile_id p' = profile_id p \<and> emails p' \<noteq> [] \<longrightarrow>
          (\<exists>res'. googleLogin sign now' p' db1 = (Inr res', db1) \<and>
                  user_id (user res') = user_id (user res))))"
proof -
  let ?g = "first_row (filter (\<lambda>u. googleId u = Some (profile_id p)) (users db))"
  let ?e = "first_row (filter (\<lambda>u. email u = e) (users db))"
  have one: "googleLogin sign now p db = (Inr (login sign u), db)" if "?g = Some u" for u
    using assms that by (rule googleLogin_found)
  have two: "googleLogin sign now p db =
         (Inr (login sign (u\<lparr>googleId := Some (profile_id p), avatar := first_row (photos p)\<rparr>)),
          db\<lparr>users := map (\<lambda>r. if user_id r = user_id u
                   then link_row (profile_id p) (first_row (photos p)) r else r) (users db)\<rparr>) \<and>
       length (users (snd (googleLogin sign now p db))) = length (users db) \<and>
       filter (\<lambda>r. email r = e) (users (snd (googleLogin sign now p db))) =
         [link_row (profile_id p) (first_row (photos p)) u] \<and>
       filter (\<lambda>r. googleId r = Some (profile_id p)) (users (snd (googleLogin sign now p db))) =
         [link_row (profile_id p) (first_row (photos p)) u] \<and>
       password (link_row (profile_id p) (first_row (photos p)) u) = password u \<and>
       googleId (link_row (profile_id p) (first_row (photos p)) u) = Some (profile_id p)"
    if "?g = None" "?e = Some u" "wf_users db" for u
  proof -
    from that(1) have n: "filter (\<lambda>u. googleId u = Some (profile_id p)) (users db) = []"
      by (simp add: first_row_None)
    note l = googleLogin_link_wf [OF assms n that(2,3)]
    show ?thesis
      by (simp add: l link_row_def)
  qed
  have three: "googleLogin sign now p db =
         (Inr (login sign (google_row (users_seq db + 1) now e p)),
          db\<lparr>users_seq := users_seq db + 1,
             users := users db @ [google_row (users_seq db + 1) now e p]\<rparr>) \<and>
       password (google_row (users_seq db + 1) now e p) = None"
    if "?g = None" "?e = None" "wf_users db"
  proof -
    from that(1) have n: "filter (\<lambda>u. googleId u = Some (profile_id p)) (users db) = []"
      by (simp add: first_row_None)
    from that(2) have m: "filter (\<lambda>u. email u = e) (users db) = []"
      by (simp add: first_row_None)
    show ?thesis
      using wf_users_fresh [OF that(3)]
      by (simp add: googleLogin_create [OF assms n m] google_row_def)
  qed
  have four: "\<exists>res'. googleLogin sign now' p' db1 = (Inr res', db1) \<and>
                  user_id (user res') = user_id (user res)"
    if g: "googleLogin sign now p db = (Inr res, db1)" and q: "profile_id p' = profile_id p"
      and ne: "emails p' \<noteq> []" for res db1 p' now'
  proof -
    have "\<exists>u'. first_row (filter (\<lambda>u. googleId u = Some (profile_id p')) (users db1)) = Some u' \<and>
        user_id u' = user_id (user res)"
      using googleLogin_then_found [OF assms g] unfolding q .
    then obtain u'
      where u: "first_row (filter (\<lambda>u. googleId u = Some (profile_id p')) (users db1)) = Some u'"
        "user_id u' = user_id (user res)"
      by blast
    from ne obtain e' es' where "emails p' = e' # es'" by (cases "emails p'") auto
    from googleLogin_found [OF this u(1), of sign now'] u(2) show ?thesis
      by (simp add: user_id_login)
  qed
  show ?thesis
    unfolding findUserByGoogleId_fst findUserByEmail_fst sum.inject
    apply (intro conjI allI impI)
    subgoal for u by (rule one)
    subgoal for u using two [of u] by blast
    subgoal for u using two [of u] by blast
    subgoal for u using two [of u] by blast
    subgoal for u using two [of u] by blast
    subgoal for u using two [of u] by blast
    subgoal for u using two [of u] by blast
    subgoal using three by blast
    subgoal using three by blast
    subgoal for res db1 p' now' using four [of res db1 p' now'] by blast
    done
qed


theorem googleLogin_upsert_witness:
  "googleLogin demo_sign 9 bob_profile demo_db = (Inr (login demo_sign bob), demo_db) \<and>
   googleLogin demo_sign 9 alice_profile demo_db =
     (Inr (login demo_sign (alice\<lparr>googleId := Some ''g-1'', avatar := Some ''pic''\<rparr>)),
      demo_db\<lparr>users := [alice\<lparr>googleId := Some ''g-1'', avatar := Some ''pic''\<rparr>, bob]\<rparr>) \<and>
   password (alice\<lparr>googleId := Some ''g-1'', avatar := Some ''pic''\<rparr>) = Some ''saltsecret1'' \<and>
   googleLogin demo_sign 9 carol_profile demo_db =
     (Inr (login demo_sign (google_row 3 9 ''c@b.com'' carol_profile)),
      demo_db\<lparr>users_seq := 3, users := [alice, bob, google_row 3 9 ''c@b.com'' carol_profile]\<rparr>) \<and>
   map_sum id (\<lambda>r. user_id (user r))
     (fst (googleLogin demo_sign 10 carol_profile
        (demo_db\<lparr>users_seq := 3,
                 users := [alice, bob, google_row 3 9 ''c@b.com'' carol_profile]\<rparr>))) = Inr 3 \<and>
   snd (googleLogin demo_sign 10 carol_profile
        (demo_db\<lparr>users_seq := 3,
                 users := [alice, bob, google_row 3 9 ''c@b.com'' carol_profile]\<rparr>)) =
     demo_db\<lparr>users_seq := 3, users := [alice, bob, google_row 3 9 ''c@b.com'' carol_profile]\<rparr>"
proof -
  note t = googleLogin_upsert [where sign = demo_sign and now = 9 and db = demo_db]
  have eb: "emails bob_profile = ''bob@b.com'' # []"
    and ea: "emails alice_profile = ''a@b.com'' # []"
    and ec: "emails carol_profile = ''c@b.com'' # []"
    by (simp_all add: bob_profile_def alice_profile_def carol_profile_def)
  have fb: "fst (findUserByGoogleId (profile_id bob_profile) demo_db) = Inr (Some bob)"
    and fa: "fst (findUserByGoogleId (profile_id alice_profile) demo_db) = Inr None"
    and fc: "fst (findUserByGoogleId (profile_id carol_profile) demo_db) = Inr None"
    by (simp_all add: findUserByGoogleId_fst first_row_def demo_db_def alice_def bob_def
        bob_profile_def alice_profile_def carol_profile_def)
  have ma: "fst (findUserByEmail ''a@b.com'' demo_db) = Inr (Some alice)"
    and mc: "fst (findUserByEmail ''c@b.com'' demo_db) = Inr None"
    by (simp_all add: findUserByEmail_fst first_row_def demo_db_def alice_def bob_def)
  have one: "googleLogin demo_sign 9 bob_profile demo_db = (Inr (login demo_sign bob), demo_db)"
    using fb by (rule t [OF eb, THEN conjunct1, rule_format])
  have la: "alice\<lparr>googleId := Some (profile_id alice_profile),
        avatar := first_row (photos alice_profile)\<rparr> =
      alice\<lparr>googleId := Some ''g-1'', avatar := Some ''pic''\<rparr>"
    by (simp add: alice_profile_def first_row_def)
  have lm: "map (\<lambda>r. if user_id r = user_id alice
         then link_row (profile_id alice_profile) (first_row (photos alice_profile)) r else r)
        (users demo_db) = [alice\<lparr>googleId := Some ''g-1'', avatar := Some ''pic''\<rparr>, bob]"
    by (simp add: alice_profile_def first_row_def demo_db_def alice_def bob_def link_row_def
        assign_def)
  have two: "googleLogin demo_sign 9 alice_profile demo_db =
     (Inr (login demo_sign (alice\<lparr>googleId := Some ''g-1'', avatar := Some ''pic''\<rparr>)),
      demo_db\<lparr>users := [alice\<lparr>googleId := Some ''g-1'', avatar := Some ''pic''\<rparr>, bob]\<rparr>)"
    using t [OF ea, THEN conjunct2, THEN conjunct1, rule_format,
        OF conjI [OF fa conjI [OF ma wf_demo_db]], THEN conjunct1]
    unfolding la lm .
  have s: "users_seq demo_db + 1 = 3"
    "users demo_db @ [google_row 3 9 ''c@b.com'' carol_profile] =
      [alice, bob, google_row 3 9 ''c@b.com'' carol_profile]"
    by (simp_all add: demo_db_def)
  have three: "googleLogin demo_sign 9 carol_profile demo_db =
     (Inr (login demo_sign (google_row 3 9 ''c@b.com'' carol_profile)),
      demo_db\<lparr>users_seq := 3, users := [alice, bob, google_row 3 9 ''c@b.com'' carol_profile]\<rparr>)"
    using t [OF ec, THEN conjunct2, THEN conjunct2, THEN conjunct1, rule_format,
        OF conjI [OF fc conjI [OF mc wf_demo_db]], THEN conjunct1]
    unfolding s .
  have "\<exists>res'. googleLogin demo_sign 10 carol_profile
        (demo_db\<lparr>users_seq := 3,
                 users := [alice, bob, google_row 3 9 ''c@b.com'' carol_profile]\<rparr>) =
       (Inr res', demo_db\<lparr>users_seq := 3,
                 users := [alice, bob, google_row 3 9 ''c@b.com'' carol_profile]\<rparr>) \<and>
       user_id (user res') =
         user_id (user (login demo_sign (google_row 3 9 ''c@b.com'' carol_profile)))"
    using ec
    by (intro t [OF ec, THEN conjunct2, THEN conjunct2, THEN conjunct2, rule_format,
          OF three] conjI refl) simp
  then obtain res' where r: "googleLogin demo_sign 10 carol_profile
        (demo_db\<lparr>users_seq := 3,
                 users := [alice, bob, google_row 3 9 ''c@b.com'' carol_profile]\<rparr>) =
       (Inr res', demo_db\<lparr>users_seq := 3,
                 users := [alice, bob, google_row 3 9 ''c@b.com'' carol_profile]\<rparr>)"
    and i: "user_id (user res') =
         user_id (user (login demo_sign (google_row 3 9 ''c@b.com'' carol_profile)))"
    by blast
  have i3: "user_id (user res') = 3"
    unfolding i by (simp add: user_id_login google_row_def)
  have four: "map_sum id (\<lambda>r. user_id (user r))
     (fst (googleLogin demo_sign 10 carol_profile
        (demo_db\<lparr>users_seq := 3,
                 users := [alice, bob, google_row 3 9 ''c@b.com'' carol_profile]\<rparr>))) = Inr 3 \<and>
   snd (googleLogin demo_sign 10 carol_profile
        (demo_db\<lparr>users_seq := 3,
                 users := [alice, bob, google_row 3 9 ''c@b.com'' carol_profile]\<rparr>)) =
     demo_db\<lparr>users_seq := 3, users := [alice, bob, google_row 3 9 ''c@b.com'' carol_profile]\<rparr>"
    unfolding r using i3 by simp
  have pw: "password (alice\<lparr>googleId := Some ''g-1'', avatar := Some ''pic''\<rparr>) =
      Some ''saltsecret1''"
    by (simp add: alice_def)
  show ?thesis using one two three four pw by (intro conjI) simp_all
qed

section \<open>BooksService: search\<close>

lemma like_percent_unfold:
  "like (CHR ''%'' # ps) t \<longleftrightarrow>
     like ps t \<or> (t \<noteq> [] \<and> like (CHR ''%'' # ps) (dropWhile is_cont (tl t)))"
  by (cases t) simp_all

lemma dropWhile_append_keep:
  "b = [] \<or> \<not> P (hd b) \<Longrightarrow> dropWhile P (a @ b) = dropWhile P a @ b"
  by (induction a) (cases b; auto)+

lemma like_percent_intro:
  assumes "like ps b" and "b = [] \<or> \<not> is_cont (hd b)"
  shows "like (CHR ''%'' # ps) (a @ b)"
proof (induction a rule: length_induct)
  case (1 a)
  show ?case
  proof (cases a)
    case Nil
    with assms(1) show ?thesis by (simp add: like_percent_unfold [of ps b])
  next
    case (Cons c a')
    have "length (dropWhile is_cont a') < length a"
      using length_dropWhile_le [of is_cont a'] Cons by simp
    with 1 have "like (CHR ''%'' # ps) (dropWhile is_cont a' @ b)" by blast
    then have "like (CHR ''%'' # ps) (dropWhile is_cont (a' @ b))"
      by (simp add: dropWhile_append_keep [where P = is_cont, OF assms(2)])
    then show ?thesis
      unfolding like_percent_unfold [of ps "a @ b"] using Cons by simp
  qed
qed

lemma like_percent_elim:
  "like (CHR ''%'' # ps) t \<Longrightarrow> \<exists>a b. t = a @ b \<and> like ps b"
proof (induction t rule: length_induct)
  case (1 t)
  from "1.prems" consider "like ps t"
    | "t \<noteq> []" "like (CHR ''%'' # ps) (dropWhile is_cont (tl t))"
    unfolding like_percent_unfold [of ps t] by blast
  then show ?case
  proof cases
    case 1
    then have "t = [] @ t \<and> like ps t" by simp
    then show ?thesis by blast
  next
    case 2
    then obtain c t' where t: "t = c # t'" by (cases t) auto
    have "length (dropWhile is_cont t') < length t"
      using length_dropWhile_le [of is_cont t'] t by simp
    with "1.IH" 2(2) t obtain a b where ab: "dropWhile is_cont t' = a @ b" "like ps b"
      by auto
    have "t = (c # takeWhile is_cont t' @ a) @ b"
      using t ab(1) takeWhile_dropWhile_id [of is_cont t'] by simp
    with ab(2) show ?thesis by blast
  qed
qed

lemma like_literal:
  "\<forall>c \<in> set q. \<not> meta c \<Longrightarrow> like (q @ ps) t \<longleftrightarrow> (\<exists>b. t = q @ b \<and> like ps b)"
proof (induction q arbitrary: t)
  case Nil
  then show ?case by simp
next
  case (Cons c q)
  then have c: "c \<noteq> CHR ''%''" "c \<noteq> CHR ''_''" "c \<noteq> CHR 0x5C"
    by (simp_all add: meta_def)
  have q: "\<forall>c \<in> set q. \<not> meta c" using Cons.prems by simp
  show ?case
  proof (cases t)
    case Nil
    with c show ?thesis by simp
  next
    case (Cons x t')
    with c Cons.IH [OF q, of t'] show ?thesis by auto
  qed
qed

lemma like_percent_only: "like ''%'' t"
  using like_percent_intro [of "[]" "[]" t] by simp

lemma like_contains:
  assumes "\<forall>c \<in> set q. \<not> meta c" and "q = [] \<or> \<not> is_cont (hd q)"
  shows "like (CHR ''%'' # q @ ''%'') t \<longleftrightarrow> sublist q t"
proof
  assume "like (CHR ''%'' # q @ ''%'') t"
  then obtain a b where ab: "t = a @ b" "like (q @ ''%'') b"
    using like_percent_elim by blast
  from ab(2) obtain c where "b = q @ c"
    using like_literal [OF assms(1), of "''%''" b] by blast
  with ab(1) show "sublist q t" by (auto simp: sublist_def)
next
  assume "sublist q t"
  then obtain a c where t: "t = a @ q @ c" by (auto simp: sublist_def)
  have l: "like (q @ ''%'') (q @ c)"
    using like_literal [OF assms(1), of "''%''" "q @ c"] like_percent_only by blast
  show "like (CHR ''%'' # q @ ''%'') t"
  proof (cases q)
    case Nil
    have "like ''%'' t" by (rule like_percent_only)
    then show ?thesis
      unfolding Nil using like_percent_unfold [of "''%''" t] by simp
  next
    case (Cons x q')
    with assms(2) have "q @ c = [] \<or> \<not> is_cont (hd (q @ c))" by simp
    from like_percent_intro [OF l this, of a] show ?thesis
      by (simp add: t)
  qed
qed

lemma ilike_contains:
  assumes "lc (''%'' @ q @ ''%'') = ''%'' @ lc q @ ''%''"
    and "\<forall>c \<in> set (lc q). \<not> meta c" and "lc q = [] \<or> \<not> is_cont (hd (lc q))"
  shows "ilike lc t (''%'' @ q @ ''%'') \<longleftrightarrow> contains_ci lc q t"
proof -
  have a: "lc (CHR ''%'' # q @ ''%'') = CHR ''%'' # lc q @ ''%''"
    using assms(1) by simp
  show ?thesis
    by (simp only: ilike_def contains_ci_def append_Cons append_Nil a
        like_contains [OF assms(2,3)])
qed

text \<open>
  C9, as amended. Let the query in lower case contain none of the characters \<^verbatim>\<open>%\<close>,
  \<^verbatim>\<open>_\<close> and backslash and start, as every text in UTF-8 does, with the first byte of a
  character; let the store's \<^verbatim>\<open>lower\<close> leave the two \<^verbatim>\<open>%\<close> of the pattern in place, and
  let the query be without the character NUL. Then \<open>search\<close> returns exactly the books
  in whose title, author or non-null description the query occurs once both are in
  lower case, and leaves the store as it was.
\<close>

theorem search_plain_query:
  assumes "lc (''%'' @ query @ ''%'') = ''%'' @ lc query @ ''%''"
    and "\<forall>c \<in> set (lc query). \<not> meta c"
    and "lc query = [] \<or> \<not> is_cont (hd (lc query))"
    and "text_ok query"
  shows "search lc query db =
     (Inr (filter (\<lambda>b. contains_ci lc query (title b) \<or> contains_ci lc query (author b) \<or>
                       (case description b of None \<Rightarrow> False
                        | Some d \<Rightarrow> contains_ci lc query d))
             (books db)), db)"
proof -
  have t: "ilike lc s (''%'' @ query @ ''%'') = contains_ci lc query s" for s
    using assms(1,2,3) by (rule ilike_contains)
  have k: "text_ok (''%'' @ query @ ''%'')"
    using assms(4) by (simp add: text_ok_def)
  show ?thesis
    unfolding search_def select_books_def t using k by simp
qed

theorem search_plain_query_witness:
  "search demo_fold ''EMM'' demo_db = (Inr [emma], demo_db) \<and>
   contains_ci demo_fold ''EMM'' (title emma) \<and>
   search demo_fold ''x'' demo_db = (Inr [], demo_db) \<and>
   search demo_fold [CHR 0xC3, CHR 0xA9] school_db = (Inr [ecole], school_db)"
proof -
  have p: "demo_fold (''%'' @ ''EMM'' @ ''%'') = ''%'' @ demo_fold ''EMM'' @ ''%''"
    "demo_fold (''%'' @ ''x'' @ ''%'') = ''%'' @ demo_fold ''x'' @ ''%''"
    "demo_fold (''%'' @ [CHR 0xC3, CHR 0xA9] @ ''%'') =
       ''%'' @ demo_fold [CHR 0xC3, CHR 0xA9] @ ''%''"
    by code_simp+
  have m: "\<forall>c \<in> set (demo_fold ''EMM''). \<not> meta c" "\<forall>c \<in> set (demo_fold ''x''). \<not> meta c"
    "\<forall>c \<in> set (demo_fold [CHR 0xC3, CHR 0xA9]). \<not> meta c"
    by code_simp+
  have s: "demo_fold ''EMM'' = [] \<or> \<not> is_cont (hd (demo_fold ''EMM''))"
    "demo_fold ''x'' = [] \<or> \<not> is_cont (hd (demo_fold ''x''))"
    "demo_fold [CHR 0xC3, CHR 0xA9] = [] \<or> \<not> is_cont (hd (demo_fold [CHR 0xC3, CHR 0xA9]))"
    by code_simp+
  have k: "text_ok ''EMM''" "text_ok ''x''" "text_ok [CHR 0xC3, CHR 0xA9]"
    by (simp_all add: text_ok_def)
  have c: "contains_ci demo_fold ''EMM'' (title emma)"
    "\<not> contains_ci demo_fold ''x'' (title emma)" "\<not> contains_ci demo_fold ''x'' (author emma)"
    "\<not> contains_ci demo_fold [CHR 0xC3, CHR 0xA9] (title emma)"
    "\<not> contains_ci demo_fold [CHR 0xC3, CHR 0xA9] (author emma)"
    "contains_ci demo_fold [CHR 0xC3, CHR 0xA9] (title ecole)"
    "description emma = None"
    by code_simp+
  have b: "books demo_db = [emma]" "books school_db = [emma, ecole]"
    by (simp_all add: demo_db_def school_db_def)
  have one: "search demo_fold ''EMM'' demo_db = (Inr [emma], demo_db)"
    unfolding search_plain_query [OF p(1) m(1) s(1) k(1), of demo_db] b using c by simp
  have two: "search demo_fold ''x'' demo_db = (Inr [], demo_db)"
    unfolding search_plain_query [OF p(2) m(2) s(2) k(2), of demo_db] b using c by simp
  have three: "search demo_fold [CHR 0xC3, CHR 0xA9] school_db = (Inr [ecole], school_db)"
    unfolding search_plain_query [OF p(3) m(3) s(3) k(3), of school_db] b using c by simp
  from one c(1) two three show ?thesis by (intro conjI)
qed

text \<open>
  C9 as stated fails for the query \<^verbatim>\<open>_\<close>: the pattern \<^verbatim>\<open>%_%\<close> matches every non-empty
  text, so the book is returned although the query occurs in none of its fields.
\<close>

theorem search_wildcard_counterexample:
  "search demo_fold ''_'' demo_db = (Inr [emma], demo_db) \<and>
   \<not> contains_ci demo_fold ''_'' (title emma) \<and>
   \<not> contains_ci demo_fold ''_'' (author emma) \<and> description emma = None"
proof -
  have c: "\<not> contains_ci demo_fold ''_'' (title emma)"
    "\<not> contains_ci demo_fold ''_'' (author emma)" "description emma = None"
    by code_simp+
  have i: "ilike demo_fold (title emma) (''%'' @ ''_'' @ ''%'')"
    by code_simp
  have k: "text_ok (''%'' @ ''_'' @ ''%'')" by (simp add: text_ok_def)
  have b: "books demo_db = [emma]" by (simp add: demo_db_def)
  show ?thesis
    using c i k by (simp add: search_def select_books_def b)
qed

end
